theory Spec2Isabelle
  imports Main "HOL-Library.Sublist"
begin

section \<open>JavaScript strings\<close>

text \<open>
  A JavaScript string is a sequence of code units. The model uses \<^typ>\<open>string\<close>, so it covers
  the code units below 256; the only white space in that range is the seven characters of
  \<open>is_space\<close> (tab, line feed, vertical tab, form feed, carriage return, space and the
  no-break space). \<open>String.prototype.trim\<close> and the regular-expression class \<open>\s\<close> use the
  same set.
\<close>

definition is_space :: "char \<Rightarrow> bool" where
  "is_space c \<longleftrightarrow> c \<in> {CHR 0x09, CHR 0x0A, CHR 0x0B, CHR 0x0C, CHR 0x0D, CHR 0x20, CHR 0xA0}"

definition trim :: "string \<Rightarrow> string" where
  "trim s = rev (dropWhile is_space (rev (dropWhile is_space s)))"

text \<open>\<open>s.indexOf(c)\<close> and \<open>s.lastIndexOf(c)\<close> for a one-character search string: the
  position of the first (last) occurrence, or \<open>-1\<close>.\<close>

definition indexOf :: "string \<Rightarrow> char \<Rightarrow> int" where
  "indexOf s c = (if c \<in> set s then int (length (takeWhile (\<lambda>x. x \<noteq> c) s)) else - 1)"

definition lastIndexOf :: "string \<Rightarrow> char \<Rightarrow> int" where
  "lastIndexOf s c =
     (if c \<in> set s then int (length s) - 1 - int (length (takeWhile (\<lambda>x. x \<noteq> c) (rev s)))
      else - 1)"

text \<open>\<open>s.substring(a, b)\<close>: both indices are clamped to \<open>0 .. length\<close> and swapped when
  \<open>a > b\<close>.\<close>

definition clamp_index :: "string \<Rightarrow> int \<Rightarrow> nat" where
  "clamp_index s i = (if i < 0 then 0 else min (nat i) (length s))"

definition substring :: "string \<Rightarrow> int \<Rightarrow> int \<Rightarrow> string" where
  "substring s a b =
     (let a' = clamp_index s a; b' = clamp_index s b; lo = min a' b'; hi = max a' b'
      in take (hi - lo) (drop lo s))"

definition startsWith :: "string \<Rightarrow> string \<Rightarrow> bool" where
  "startsWith s p \<longleftrightarrow> prefix p s"

definition endsWith :: "string \<Rightarrow> string \<Rightarrow> bool" where
  "endsWith s p \<longleftrightarrow> suffix p s"

text \<open>\<open>xs.join(sep)\<close> on an array of strings.\<close>

fun join :: "string \<Rightarrow> string list \<Rightarrow> string" where
  "join sep [] = []"
| "join sep [x] = x"
| "join sep (x # y # ys) = x @ sep @ join sep (y # ys)"

section \<open>Regular expressions\<close>

text \<open>
  The three patterns of the service use literals, an optional group, an alternative, greedy
  and lazy repetition of a one-character class, and one capture group. \<open>run\<close> is a
  backtracking matcher for that fragment: it returns every way the expression matches a
  prefix of the input, as the remaining input and the capture, in the order in which a
  backtracking engine tries them. The first element is the match JavaScript reports.
\<close>

datatype cclass = Space | AnyChar

fun in_class :: "cclass \<Rightarrow> char \<Rightarrow> bool" where
  "in_class Space c = is_space c"
| "in_class AnyChar c = True"

datatype re =
    Lit string
  | Opt re
  | Alt re re
  | Star cclass
  | StarLazy cclass
  | Seq re re
  | Cap re

type_synonym mstate = "string \<times> string option"

fun run :: "re \<Rightarrow> mstate \<Rightarrow> mstate list" where
  "run (Lit l) (s, c) = (if prefix l s then [(drop (length l) s, c)] else [])"
| "run (Opt r) st = run r st @ [st]"
| "run (Alt a b) st = run a st @ run b st"
| "run (Star k) (s, c) =
     map (\<lambda>n. (drop n s, c)) (rev [0 ..< Suc (length (takeWhile (in_class k) s))])"
| "run (StarLazy k) (s, c) =
     map (\<lambda>n. (drop n s, c)) [0 ..< Suc (length (takeWhile (in_class k) s))]"
| "run (Seq a b) st = concat (map (run b) (run a st))"
| "run (Cap r) (s, c) =
     map (\<lambda>(s', _). (s', Some (take (length s - length s') s))) (run r (s, c))"

text \<open>The match at one start position: the capture of the first alternative that succeeds.\<close>

definition exec_at :: "re \<Rightarrow> string \<Rightarrow> string option option" where
  "exec_at r s = (case run r (s, None) of [] \<Rightarrow> None | (_, c) # _ \<Rightarrow> Some c)"

text \<open>\<open>s.match(r)\<close> for a pattern without the global flag: the leftmost start position
  with a match; the result is group 1 of that match (\<open>None\<close> inside: the group took no part).\<close>

fun match_re :: "re \<Rightarrow> string \<Rightarrow> string option option" where
  "match_re r [] = exec_at r []"
| "match_re r (x # xs) =
     (case exec_at r (x # xs) of Some c \<Rightarrow> Some c | None \<Rightarrow> match_re r xs)"

text \<open>\<open>m && m[1]\<close>: the match exists and its group 1 is a non-empty string.\<close>

definition group1 :: "string option option \<Rightarrow> string option" where
  "group1 m = (case m of Some (Some g) \<Rightarrow> (if g = [] then None else Some g) | _ \<Rightarrow> None)"

definition fence :: string where
  "fence = [CHR 0x60, CHR 0x60, CHR 0x60]"

text \<open>The pattern of \<open>fetchTrendingNews\<close>: three backquotes, \<open>(?:json)?\<close>, \<open>\s*\<close>,
  the group \<open>(\[[\s\S]*\])\<close>, \<open>\s*\<close>, three backquotes.\<close>

definition news_re :: re where
  "news_re =
     Seq (Lit fence) (Seq (Opt (Lit ''json'')) (Seq (Star Space)
       (Seq (Cap (Seq (Lit ''['') (Seq (Star AnyChar) (Lit '']''))))
         (Seq (Star Space) (Lit fence)))))"

text \<open>The pattern of \<open>generateNewsletter\<close>: three backquotes, \<open>(?:html)?\<close>, \<open>\s*\<close>,
  the lazy group \<open>([\s\S]*?)\<close>, \<open>\s*\<close>, three backquotes.\<close>

definition html_re :: re where
  "html_re =
     Seq (Lit fence) (Seq (Opt (Lit ''html'')) (Seq (Star Space)
       (Seq (Cap (StarLazy AnyChar)) (Seq (Star Space) (Lit fence)))))"

text \<open>The pattern of \<open>refineNewsletter\<close>: as before with \<open>(?:json|html)?\<close>.\<close>

definition refine_re :: re where
  "refine_re =
     Seq (Lit fence) (Seq (Opt (Alt (Lit ''json'') (Lit ''html''))) (Seq (Star Space)
       (Seq (Cap (StarLazy AnyChar)) (Seq (Star Space) (Lit fence)))))"

section \<open>Values, exceptions and the external boundary\<close>

text \<open>
  Values as \<open>JSON.parse\<close> produces them. A number is modelled by an integer: the program
  only tests a number for being zero. An object is its list of properties.
\<close>

datatype json =
    JNull
  | JBool bool
  | JNum int
  | JStr string
  | JArr "json list"
  | JObj "(string \<times> json) list"

text \<open>What can be thrown: an \<open>Error\<close> with its message, the subclasses \<open>SyntaxError\<close>
  and \<open>TypeError\<close> with theirs, and a value that is not an \<open>Error\<close> at all.\<close>

datatype js_exn = Error string | SyntaxError string | TypeError string | NonError

text \<open>\<open>err instanceof Error ? err.message : 'An unknown error occurred.'\<close>\<close>

fun message_of :: "js_exn \<Rightarrow> string" where
  "message_of (Error m) = m"
| "message_of (SyntaxError m) = m"
| "message_of (TypeError m) = m"
| "message_of NonError = ''An unknown error occurred.''"

text \<open>Truthiness of a value, as \<open>!v\<close> and \<open>a && b\<close> test it.\<close>

fun truthy :: "json \<Rightarrow> bool" where
  "truthy JNull = False"
| "truthy (JBool b) = b"
| "truthy (JNum n) = (n \<noteq> 0)"
| "truthy (JStr s) = (s \<noteq> [])"
| "truthy (JArr xs) = True"
| "truthy (JObj kvs) = True"

text \<open>
  The property read \<open>v.k\<close> for the three names the program reads (\<open>length\<close>,
  \<open>requestType\<close>, \<open>newImagePrompt\<close>): \<open>Inr None\<close> is \<open>undefined\<close>, and reading a
  property of \<open>null\<close> throws a \<open>TypeError\<close>.
\<close>

fun get_prop :: "json \<Rightarrow> string \<Rightarrow> js_exn + json option" where
  "get_prop JNull k =
     Inl (TypeError (''Cannot read properties of null (reading '' @ [CHR 0x27] @ k @ [CHR 0x27] @ '')''))"
| "get_prop (JObj kvs) k = Inr (map_of kvs k)"
| "get_prop (JArr xs) k = Inr (if k = ''length'' then Some (JNum (int (length xs))) else None)"
| "get_prop (JStr s) k = Inr (if k = ''length'' then Some (JNum (int (length s))) else None)"
| "get_prop (JNum n) k = Inr None"
| "get_prop (JBool b) k = Inr None"

text \<open>\<open>v.length === 0\<close>\<close>

definition length_is_zero :: "json \<Rightarrow> js_exn + bool" where
  "length_is_zero v =
     (case get_prop v ''length'' of Inl e \<Rightarrow> Inl e | Inr l \<Rightarrow> Inr (l = Some (JNum 0)))"

text \<open>A request sent to the generative service: \<open>ai.models.generateContent\<close> with its model,
  prompt and whether the search tool is configured, or \<open>ai.models.generateImages\<close> with its
  model and prompt (the configuration is fixed: one PNG image, 16:9).\<close>

datatype request =
    GenerateContent string string bool
  | GenerateImages string json

text \<open>
  Everything outside the repository is a parameter: the two calls of the service (the text
  of the response, or the \<open>imageBytes\<close> of the generated images, \<open>None\<close> when the
  response has no \<open>generatedImages\<close>; \<open>Inl\<close> when the promise rejects), and the built-in
  \<open>JSON.parse\<close> (\<open>Inl m\<close>: it throws a \<open>SyntaxError\<close> with message \<open>m\<close>) and
  \<open>JSON.stringify(v, null, 2)\<close>.
\<close>

record env =
  ai_generateContent :: "string \<Rightarrow> string \<Rightarrow> bool \<Rightarrow> js_exn + string"
  ai_generateImages :: "string \<Rightarrow> json \<Rightarrow> js_exn + string list option"
  JSON_parse :: "string \<Rightarrow> string + json"
  JSON_stringify :: "json \<Rightarrow> string"

text \<open>The decimal rendering of an integer, as a template literal inserts a number.\<close>

function digits :: "nat \<Rightarrow> string" where
  "digits n = (if n < 10 then [char_of (48 + n)] else digits (n div 10) @ [char_of (48 + n mod 10)])"
  by pat_completeness auto
termination
  by (relation "measure (\<lambda>n. n)") auto

definition toString :: "int \<Rightarrow> string" where
  "toString i = (if i < 0 then ''-'' @ digits (nat (- i)) else digits (nat i))"

section \<open>The service: prompts and response extraction\<close>

datatype news_format = Paragraph | Bullets

fun format_name :: "news_format \<Rightarrow> string" where
  "format_name Paragraph = ''paragraph''"
| "format_name Bullets = ''bullets''"

record GenerationOptions =
  opt_topics :: "string list"
  opt_industry :: string
  opt_companyName :: string
  opt_tone :: string
  opt_newsFormat :: news_format
  opt_wordLength :: int
  opt_additionalInstructions :: string

definition news_prompt :: "string list \<Rightarrow> int \<Rightarrow> string" where
  \<open>news_prompt topics minArticles =
     ''Find the most recent (within the last 48 hours), top trending news '' @
     ''articles for the following topics: '' @
     join '', '' topics @
     ''. \<newline>'' @
     ''  Focus on significant developments and announcements. For each '' @
     ''article, find its title, a brief summary, the source website, a '' @
     ''direct link, and its publication date. \<newline>'' @
     ''  Return at least '' @
     toString minArticles @
     '' diverse articles in total across all topics. Ensure the links are '' @
     ''valid.\<newline>'' @
     ''  Format the output as a valid JSON array of objects, where each '' @
     ''object has keys: "title", "summary", "source", "link", and "date".\<newline>'' @
     ''  Do not include any introductory text, closing text, or markdown '' @
     ''formatting like ```json. The entire response should be only the JSON '' @
     ''array.''\<close>

definition newsletter_prompt :: "string \<Rightarrow> GenerationOptions \<Rightarrow> string" where
  \<open>newsletter_prompt articlesJson options =
    (let industry = opt_industry options; companyName = opt_companyName options;
         tone = opt_tone options; newsFormat = format_name (opt_newsFormat options);
         wordLength = opt_wordLength options;
         additionalInstructions = opt_additionalInstructions options
     in
     ''\<newline>'' @
     ''    You are an expert content creator for "'' @
     companyName @
     ''", a leading voice in the '' @
     industry @
     '' sector.\<newline>'' @
     ''    Your task is to generate a professional newsletter.\<newline>'' @
     ''    The audience is savvy and expects high-quality, relevant '' @
     ''information.\<newline>'' @
     ''\<newline>'' @
     ''    **Newsletter Specifications:**\<newline>'' @
     ''    - **Company:** '' @
     companyName @
     ''\<newline>'' @
     ''    - **Industry:** '' @
     industry @
     ''\<newline>'' @
     ''    - **Tone:** '' @
     tone @
     ''. The writing must reflect this tone consistently.\<newline>'' @
     ''    - **News Format:** Each news summary should be a single '' @
     newsFormat @
     ''.\<newline>'' @
     ''    - **Summary Length:** Each summary should be approximately '' @
     toString wordLength @
     '' words.\<newline>'' @
     ''    - **Additional Instructions:** '' @
     (if additionalInstructions = [] then ''None'' else additionalInstructions) @
     ''\<newline>'' @
     ''\<newline>'' @
     ''    **Instructions:**\<newline>'' @
     ''    1.  **Main Title:** Create a compelling title for the newsletter '' @
     ''that reflects the key themes.\<newline>'' @
     ''    2.  **Introduction:** Write a short, engaging introduction (2-3 '' @
     ''sentences) that sets the stage.\<newline>'' @
     ''    3.  **Article Sections:** For each article, create a section '' @
     ''with:\<newline>'' @
     ''        - A clear, bolded heading (<h4>) with the publication date '' @
     ''next to it in a smaller, subtle format (e.g., using a <small> tag).\<newline>'' @
     ''        - A summary of the article, adhering to the specified format '' @
     ''(paragraph/bullets) and length (~'' @
     toString wordLength @
     '' words).\<newline>'' @
     ''        - A "Read More" link (<a>) to the original article, using the '' @
     ''source name as the link text.\<newline>'' @
     ''    4.  **Closing:** Add a brief closing remark.\<newline>'' @
     ''    5.  **Styling:** Generate clean, modern HTML. Prioritize semantic '' @
     ''tags like <h1>, <h2>, <p>, <h4>, <a>, <strong>, <em>, <ul>, <li>, and '' @
     ''<hr>. You may use tasteful inline CSS for styling, but do not include '' @
     ''<style> blocks.\<newline>'' @
     ''    6.  **Output:** Provide a single block of HTML code, starting '' @
     ''with <h1>.\<newline>'' @
     ''\<newline>'' @
     ''    **News Articles Data (with publication dates):**\<newline>'' @
     ''    '' @
     articlesJson @
     ''\<newline>'' @
     ''    '')\<close>

definition refine_prompt :: "env \<Rightarrow> string \<Rightarrow> json \<Rightarrow> string \<Rightarrow> string" where
  \<open>refine_prompt env currentHtml articles refinementPrompt =
     ''You are an AI assistant helping a user refine a newsletter. You will '' @
     ''be given the current newsletter HTML, the original news articles it '' @
     ''was based on, and a user's request for changes. Your task is to '' @
     ''process the request and provide an updated newsletter.\<newline>'' @
     ''\<newline>'' @
     ''**User Request:** "'' @
     refinementPrompt @
     ''"\<newline>'' @
     ''\<newline>'' @
     ''**Current Newsletter HTML:**\<newline>'' @
     currentHtml @
     ''\<newline>'' @
     ''\<newline>'' @
     ''**Original News Articles (for context, including publication '' @
     ''dates):**\<newline>'' @
     JSON_stringify env articles @
     ''\<newline>'' @
     ''\<newline>'' @
     ''**Instructions:**\<newline>'' @
     ''1.  **Analyze the User Request:** Understand what the user wants to '' @
     ''change. This could be content, style, structure, or even the header '' @
     ''image.\<newline>'' @
     ''2.  **Handle Image Requests:** If the user asks for a new image '' @
     ''(e.g., "change the image to be about space exploration"), you MUST '' @
     ''ONLY respond with a JSON object of this exact format: '' @
     ''`{"requestType": "image", "newImagePrompt": "a detailed prompt for '' @
     ''the new image based on the user request"}`. Do not return any HTML or '' @
     ''other text.\<newline>'' @
     ''3.  **Handle Content/Data Requests:** If the user asks to add '' @
     ''information like dates, use the "Original News Articles" data. For '' @
     ''example, if asked to add dates, modify the HTML to include them next '' @
     ''to the article headings.\<newline>'' @
     ''4.  **Handle Style/Theme Changes:** For requests involving visual '' @
     ''changes (e.g., "make it look more futuristic", "change the colors"), '' @
     ''you are allowed to add or modify inline CSS styles directly on the '' @
     ''HTML elements. Use styles to change colors, fonts, spacing, etc., to '' @
     ''match the user's request.\<newline>'' @
     ''5.  **Return Full HTML:** For any request that is not an image '' @
     ''change, you must return the FULL, complete, updated HTML for the '' @
     ''newsletter body.\<newline>'' @
     ''6.  **Output Format:**\<newline>'' @
     ''    -   If it's an image request, output ONLY the JSON object '' @
     ''described in step 2.\<newline>'' @
     ''    -   For all other requests, output ONLY the updated HTML.\<newline>'' @
     ''\<newline>'' @
     ''Now, generate the response based on the user's request.''\<close>

text \<open>A \<open>try { ... } catch (error) { throw h(error) }\<close> block around a computation.\<close>

definition try_catch :: "'e + 'a \<Rightarrow> ('e \<Rightarrow> 'e) \<Rightarrow> 'e + 'a" where
  "try_catch m h = (case m of Inl e \<Rightarrow> Inl (h e) | Inr v \<Rightarrow> Inr v)"

subsection \<open>fetchTrendingNews\<close>

text \<open>
  The extraction of the JSON text from the response text (the statements from
  \<open>const rawText = response.text.trim()\<close> to the end of the \<open>if\<close>/\<open>else\<close>): the group of the
  fenced block if the pattern matches, else the text from the first \<open>[\<close> to the last \<open>]\<close>.
\<close>

definition newsJsonText :: "string \<Rightarrow> js_exn + string" where
  "newsJsonText text =
     (let rawText = trim text; jsonText = rawText in
      case group1 (match_re news_re jsonText) of
        Some g \<Rightarrow> Inr g
      | None \<Rightarrow>
          (let jsonStartIndex = indexOf jsonText (CHR ''['');
               jsonEndIndex = lastIndexOf jsonText (CHR '']'')
           in if jsonStartIndex = - 1 \<or> jsonEndIndex = - 1 \<or> jsonEndIndex < jsonStartIndex
              then Inl (Error
                ''The AI returned data in an unexpected format. Could not find a JSON array.'')
              else Inr (substring jsonText jsonStartIndex (jsonEndIndex + 1))))"

text \<open>\<open>JSON.parse(jsonText)\<close> and the test \<open>!articles || articles.length === 0\<close>. The
  second operand is only evaluated for a truthy value, which is not \<open>null\<close>.\<close>

definition parseArticles :: "env \<Rightarrow> string \<Rightarrow> js_exn + json" where
  "parseArticles env jsonText =
     (case JSON_parse env jsonText of
        Inl m \<Rightarrow> Inl (SyntaxError m)
      | Inr articles \<Rightarrow>
          if \<not> truthy articles \<or> length_is_zero articles = Inr True
          then Inl (Error
            ''The AI returned no articles. The response might be empty or in an unexpected format.'')
          else Inr articles)"

text \<open>The \<open>catch\<close> block of \<open>fetchTrendingNews\<close>.\<close>

fun fetch_catch :: "js_exn \<Rightarrow> js_exn" where
  "fetch_catch (SyntaxError m) =
     Error ''Failed to parse the news data from the AI. The format was invalid.''"
| "fetch_catch e = Error ''Failed to fetch news from the AI. Check API key or try again later.''"

definition fetchTrendingNews :: "env \<Rightarrow> string list \<Rightarrow> int \<Rightarrow> (js_exn + json) \<times> request list" where
  "fetchTrendingNews env topics minArticles =
     (let prompt = news_prompt topics minArticles in
      (try_catch
         (case ai_generateContent env ''gemini-2.5-flash'' prompt True of
            Inl e \<Rightarrow> Inl e
          | Inr text \<Rightarrow>
              (case newsJsonText text of
                 Inl e \<Rightarrow> Inl e
               | Inr jsonText \<Rightarrow> parseArticles env jsonText))
         fetch_catch,
       [GenerateContent ''gemini-2.5-flash'' prompt True]))"

subsection \<open>generateNewsletter\<close>

text \<open>The body of the \<open>try\<close> block after the response has arrived.\<close>

definition newsletterHtml_of :: "string \<Rightarrow> js_exn + string" where
  "newsletterHtml_of text =
     (let newsletterHtml = trim text in
      if newsletterHtml = [] then Inl (Error ''The AI returned an empty response for the newsletter.'')
      else case group1 (match_re html_re newsletterHtml) of
             Some g \<Rightarrow> Inr (trim g)
           | None \<Rightarrow> Inr newsletterHtml)"

definition generateNewsletter :: "env \<Rightarrow> json \<Rightarrow> GenerationOptions \<Rightarrow> (js_exn + string) \<times> request list" where
  "generateNewsletter env articles options =
     (let articlesJson = JSON_stringify env articles;
          prompt = newsletter_prompt articlesJson options in
      (try_catch
         (case ai_generateContent env ''gemini-2.5-flash'' prompt False of
            Inl e \<Rightarrow> Inl e
          | Inr text \<Rightarrow> newsletterHtml_of text)
         (\<lambda>e. Error ''Failed to generate the newsletter from the AI. Please try again.''),
       [GenerateContent ''gemini-2.5-flash'' prompt False]))"

subsection \<open>generateHeaderImage\<close>

definition generateHeaderImage :: "env \<Rightarrow> json \<Rightarrow> (js_exn + string) \<times> request list" where
  "generateHeaderImage env prompt =
     (try_catch
        (case ai_generateImages env ''imagen-4.0-generate-001'' prompt of
           Inl e \<Rightarrow> Inl e
         | Inr None \<Rightarrow> Inl (Error ''The AI returned no images.'')
         | Inr (Some []) \<Rightarrow> Inl (Error ''The AI returned no images.'')
         | Inr (Some (base64ImageBytes # _)) \<Rightarrow> Inr base64ImageBytes)
        (\<lambda>e. Error ''Failed to generate the header image from the AI. Please try again.''),
      [GenerateImages ''imagen-4.0-generate-001'' prompt])"

subsection \<open>refineNewsletter\<close>

definition refineText_of :: "string \<Rightarrow> js_exn + string" where
  "refineText_of text =
     (let resultText = trim text in
      if resultText = []
      then Inl (Error ''The AI returned an empty response for the refinement request.'')
      else case group1 (match_re refine_re resultText) of
             Some g \<Rightarrow> Inr (trim g)
           | None \<Rightarrow> Inr resultText)"

definition refineNewsletter :: "env \<Rightarrow> string \<Rightarrow> json \<Rightarrow> string \<Rightarrow> (js_exn + string) \<times> request list" where
  "refineNewsletter env currentHtml articles refinementPrompt =
     (let prompt = refine_prompt env currentHtml articles refinementPrompt in
      (try_catch
         (case ai_generateContent env ''gemini-2.5-flash'' prompt False of
            Inl e \<Rightarrow> Inl e
          | Inr text \<Rightarrow> refineText_of text)
         (\<lambda>e. Error ''Failed to refine the newsletter from the AI. Please try again.''),
       [GenerateContent ''gemini-2.5-flash'' prompt False]))"

section \<open>The application component\<close>

datatype action = Generate | Refine

text \<open>The state of \<open>App\<close>: the form fields and the application state, one field for each
  \<open>useState\<close>/\<open>useLocalStorage\<close> hook. \<open>None\<close> is \<open>null\<close>.\<close>

record app_state =
  topics :: "string list"
  industry :: string
  companyName :: string
  visualKeywords :: string
  minArticles :: int
  wordLength :: int
  tone :: string
  newsFormat :: news_format
  customImagePrompt :: string
  additionalInstructions :: string
  shouldGenerateImage :: bool
  newsletterHtml :: "string option"
  headerImageUrl :: "string option"
  articles :: json
  refinementPrompt :: string
  loadingAction :: "action option"
  loadingMessage :: string
  error :: "string option"

definition isLoading :: "app_state \<Rightarrow> bool" where
  "isLoading s \<longleftrightarrow> loadingAction s \<noteq> None"

definition image_prompt :: "app_state \<Rightarrow> string" where
  \<open>image_prompt s =
     (if trim (customImagePrompt s) \<noteq> [] then trim (customImagePrompt s)
      else ''A professional and visually appealing header image for a newsletter '' @
            ''from '' @
            companyName s @
            '' about "'' @
            join '', '' (topics s) @
            ''". The style should be: '' @
            visualKeywords s @
            ''. Abstract and suitable for a '' @
            industry s @
            '' audience. Avoid text.'')\<close>

definition data_uri :: "string \<Rightarrow> string" where
  "data_uri imageBase64 = ''data:image/png;base64,'' @ imageBase64"

text \<open>The object \<open>newsletterOptions\<close> built from the form fields.\<close>

definition newsletterOptions :: "app_state \<Rightarrow> GenerationOptions" where
  "newsletterOptions s =
     \<lparr>opt_topics = topics s, opt_industry = industry s, opt_companyName = companyName s,
      opt_tone = tone s, opt_newsFormat = newsFormat s, opt_wordLength = wordLength s,
      opt_additionalInstructions = additionalInstructions s\<rparr>"

text \<open>
  A handler runs to completion in the model: it takes the state it was created from and
  returns the state after its last update together with the requests it sent, in order.
  The \<open>try\<close> block of \<open>handleGenerateNewsletter\<close> returns the exception it ended with, if
  any, and the state and requests up to that point.
\<close>

definition generate_try :: "env \<Rightarrow> app_state \<Rightarrow> js_exn option \<times> app_state \<times> request list" where
  "generate_try env s0 =
     (let s1 = s0\<lparr>loadingMessage := ''Researching trending news...''\<rparr>;
          (r1, log1) = fetchTrendingNews env (topics s0) (minArticles s0)
      in case r1 of
           Inl e \<Rightarrow> (Some e, s1, log1)
         | Inr articlesData \<Rightarrow>
            (let s2 = s1\<lparr>articles := articlesData\<rparr> in
             case length_is_zero articlesData of
               Inl e \<Rightarrow> (Some e, s2, log1)
             | Inr True \<Rightarrow>
                 (Some (Error ''Could not find any relevant news articles. Try different topics.''),
                  s2, log1)
             | Inr False \<Rightarrow>
                (let s3 = s2\<lparr>loadingMessage := ''Crafting your newsletter...''\<rparr>;
                     (r2, log2) = generateNewsletter env articlesData (newsletterOptions s0)
                 in case r2 of
                      Inl e \<Rightarrow> (Some e, s3, log1 @ log2)
                    | Inr htmlContent \<Rightarrow>
                       (let s4 = s3\<lparr>newsletterHtml := Some htmlContent\<rparr> in
                        if shouldGenerateImage s0 then
                          (let s5 = s4\<lparr>loadingMessage := ''Generating header image...''\<rparr>;
                               imagePrompt = image_prompt s0;
                               (r3, log3) = generateHeaderImage env (JStr imagePrompt)
                           in case r3 of
                                Inl e \<Rightarrow> (Some e, s5, log1 @ log2 @ log3)
                              | Inr imageBase64 \<Rightarrow>
                                  (None, s5\<lparr>headerImageUrl := Some (data_uri imageBase64)\<rparr>,
                                   log1 @ log2 @ log3))
                        else (None, s4, log1 @ log2)))))"

text \<open>The \<open>catch\<close> and \<open>finally\<close> blocks shared by both handlers, without the reset of the
  refinement input that only \<open>handleRefineNewsletter\<close> does.\<close>

definition catch_finally :: "js_exn option \<times> app_state \<times> request list \<Rightarrow> app_state \<times> request list" where
  "catch_finally r =
     (case r of (exn, s, log) \<Rightarrow>
        (let s' = (case exn of Some err \<Rightarrow> s\<lparr>error := Some (message_of err)\<rparr> | None \<Rightarrow> s)
         in (s'\<lparr>loadingAction := None, loadingMessage := []\<rparr>, log)))"

definition handleGenerateNewsletter :: "env \<Rightarrow> app_state \<Rightarrow> app_state \<times> request list" where
  "handleGenerateNewsletter env s =
     (if topics s = [] then (s\<lparr>error := Some ''Please add at least one topic.''\<rparr>, [])
      else
        catch_finally (generate_try env
          (s\<lparr>loadingAction := Some Generate, error := None, newsletterHtml := None,
             headerImageUrl := None, articles := JArr []\<rparr>)))"

text \<open>The inner \<open>try\<close> block of \<open>handleRefineNewsletter\<close>, entered when the result looks
  like a JSON object.\<close>

definition refine_json_try :: "env \<Rightarrow> app_state \<Rightarrow> string \<Rightarrow> js_exn option \<times> app_state \<times> request list" where
  "refine_json_try env s result =
     (case JSON_parse env result of
        Inl m \<Rightarrow> (Some (SyntaxError m), s, [])
      | Inr jsonResponse \<Rightarrow>
         (case get_prop jsonResponse ''requestType'' of
            Inl e \<Rightarrow> (Some e, s, [])
          | Inr requestType \<Rightarrow>
             (case (if requestType = Some (JStr ''image'')
                    then get_prop jsonResponse ''newImagePrompt'' else Inr None) of
                Inl e \<Rightarrow> (Some e, s, [])
              | Inr newImagePrompt \<Rightarrow>
                 (case newImagePrompt of
                    None \<Rightarrow> (Some (Error ''AI returned an unexpected JSON format.''), s, [])
                  | Some p \<Rightarrow>
                     if truthy p then
                       (let s1 = s\<lparr>loadingMessage := ''Generating new header image...''\<rparr>;
                            (r, log) = generateHeaderImage env p
                        in case r of
                             Inl e \<Rightarrow> (Some e, s1, log)
                           | Inr imageBase64 \<Rightarrow>
                               (None, s1\<lparr>headerImageUrl := Some (data_uri imageBase64)\<rparr>, log))
                     else (Some (Error ''AI returned an unexpected JSON format.''), s, [])))))"

definition refine_try :: "env \<Rightarrow> app_state \<Rightarrow> string \<Rightarrow> js_exn option \<times> app_state \<times> request list" where
  "refine_try env s0 html =
     (let s1 = s0\<lparr>loadingMessage := ''Refining your newsletter...''\<rparr>;
          (r1, log1) = refineNewsletter env html (articles s0) (refinementPrompt s0)
      in case r1 of
           Inl e \<Rightarrow> (Some e, s1, log1)
         | Inr result \<Rightarrow>
            (let isJsonLike = startsWith (trim result) ''{'' \<and> endsWith (trim result) ''}'' in
             if isJsonLike then
               (case refine_json_try env s1 result of
                  (Some e, s2, log2) \<Rightarrow>
                    (Some (Error ''AI response was not in the expected format. Please rephrase.''),
                     s2, log1 @ log2)
                | (None, s2, log2) \<Rightarrow> (None, s2, log1 @ log2))
             else (None, s1\<lparr>newsletterHtml := Some result\<rparr>, log1)))"

definition handleRefineNewsletter :: "env \<Rightarrow> app_state \<Rightarrow> app_state \<times> request list" where
  "handleRefineNewsletter env s =
     (case newsletterHtml s of
        None \<Rightarrow> (s, [])
      | Some html \<Rightarrow>
          if trim (refinementPrompt s) = [] \<or> html = [] then (s, [])
          else
            (case catch_finally (refine_try env (s\<lparr>loadingAction := Some Refine, error := None\<rparr>) html) of
               (s', log) \<Rightarrow> (s'\<lparr>refinementPrompt := []\<rparr>, log)))"

text \<open>
  The two buttons. A disabled button does not call its handler. The generate button is
  disabled by \<open>isLoading || topics.length === 0\<close>; the refine button is rendered only when
  \<open>newsletterHtml\<close> is truthy and is disabled by \<open>isLoading || !refinementPrompt.trim()\<close>.
\<close>

definition clickGenerate :: "env \<Rightarrow> app_state \<Rightarrow> app_state \<times> request list" where
  "clickGenerate env s =
     (if isLoading s \<or> topics s = [] then (s, []) else handleGenerateNewsletter env s)"

definition clickRefine :: "env \<Rightarrow> app_state \<Rightarrow> app_state \<times> request list" where
  "clickRefine env s =
     (if newsletterHtml s = None \<or> newsletterHtml s = Some [] then (s, [])
      else if isLoading s \<or> trim (refinementPrompt s) = [] then (s, [])
      else handleRefineNewsletter env s)"

section \<open>Sample inputs\<close>

text \<open>The state of \<open>App\<close> when it is first rendered with an empty local storage: the
  initial values of the hooks.\<close>

definition initial_state :: app_state where
  "initial_state =
     \<lparr>topics = [''AI in healthcare'', ''Renewable energy breakthroughs''],
      industry = ''Technology'',
      companyName = ''Innovate Inc.'',
      visualKeywords = ''abstract, futuristic, blue, network'',
      minArticles = 5,
      wordLength = 100,
      tone = ''Professional'',
      newsFormat = Paragraph,
      customImagePrompt = [],
      additionalInstructions = [],
      shouldGenerateImage = True,
      newsletterHtml = None,
      headerImageUrl = None,
      articles = JArr [],
      refinementPrompt = [],
      loadingAction = None,
      loadingMessage = [],
      error = None\<rparr>"

text \<open>A state with a document on screen and a refinement instruction typed in.\<close>

definition document_state :: app_state where
  "document_state =
     initial_state\<lparr>newsletterHtml := Some ''<h1>News</h1>'',
       headerImageUrl := Some ''data:image/png;base64,AAAA'',
       articles := JArr [JObj [(''title'', JStr ''T'')]],
       refinementPrompt := ''shorter''\<rparr>"

text \<open>What \<open>JSON.parse\<close> returns on the texts used in the examples; on any other text this
  sample parser throws.\<close>

definition sample_parse :: "string \<Rightarrow> string + json" where
  \<open>sample_parse s =
     (if s = ''[]'' then Inr (JArr [])
      else if s = ''[{}]'' then Inr (JArr [JObj []])
      else if s = ''{"requestType":"image","newImagePrompt":"mountains at dawn"}''
      then Inr (JObj [(''requestType'', JStr ''image''),
                      (''newImagePrompt'', JStr ''mountains at dawn'')])
      else Inl ''Unexpected token'')\<close>

text \<open>A service that answers every text request with \<open>reply\<close> and every image request
  with \<open>images\<close>.\<close>

definition sample_env :: "js_exn + string \<Rightarrow> js_exn + string list option \<Rightarrow> env" where
  "sample_env reply images =
     \<lparr>ai_generateContent = (\<lambda>model contents search. reply),
      ai_generateImages = (\<lambda>model prompt. images),
      JSON_parse = sample_parse,
      JSON_stringify = (\<lambda>v. ''[...]'')\<rparr>"

text \<open>A service whose news reply is \<open>news\<close> and whose other text replies are \<open>reply\<close>: the
  news request is the one that configures the search tool.\<close>

definition sample_env2 :: "js_exn + string \<Rightarrow> js_exn + string \<Rightarrow> js_exn + string list option \<Rightarrow> env" where
  "sample_env2 news reply images =
     \<lparr>ai_generateContent = (\<lambda>model contents search. if search then news else reply),
      ai_generateImages = (\<lambda>model prompt. images),
      JSON_parse = sample_parse,
      JSON_stringify = (\<lambda>v. ''[...]'')\<rparr>"

text \<open>The document state while a generation cycle is in its image step.\<close>

definition busy_state :: app_state where
  "busy_state =
     document_state\<lparr>loadingAction := Some Generate,
       loadingMessage := ''Generating header image...''\<rparr>"

section \<open>Basic facts about strings\<close>

lemma takeWhile_first: "c \<notin> set pre \<Longrightarrow> takeWhile (\<lambda>x. x \<noteq> c) (pre @ c # rest) = pre"
  by (induction pre) auto

lemma indexOf_known: "c \<notin> set pre \<Longrightarrow> indexOf (pre @ c # rest) c = int (length pre)"
  by (simp add: indexOf_def takeWhile_first)

lemma lastIndexOf_known: "c \<notin> set post \<Longrightarrow> lastIndexOf (init @ c # post) c = int (length init)"
  using takeWhile_first [of c "rev post" "rev init"]
  by (simp add: lastIndexOf_def)

lemma substring_mid:
  "substring (pre @ mid @ post) (int (length pre)) (int (length pre + length mid)) = mid"
  by (simp add: substring_def clamp_index_def Let_def min_def max_def nat_int_add)

lemma first_le:
  "pre @ a # r = p @ a # t \<Longrightarrow> a \<notin> set pre \<Longrightarrow> length pre \<le> length p"
  by (auto simp: append_eq_append_conv2 Cons_eq_append_conv append_eq_Cons_conv)

lemma last_ge:
  "ini @ b # post = u @ b # q \<Longrightarrow> b \<notin> set post \<Longrightarrow> length u \<le> length ini"
  by (auto simp: append_eq_append_conv2 Cons_eq_append_conv append_eq_Cons_conv)

lemma overlap_split:
  "pre @ a # r = ini @ b # post \<Longrightarrow> length pre < length ini \<Longrightarrow> \<exists>body. ini = pre @ a # body"
  by (auto simp: append_eq_append_conv2 Cons_eq_append_conv append_eq_Cons_conv)

lemma first_before_last:
  assumes "s = p @ a # m @ b # q" and "s = pre @ a # r" and "a \<notin> set pre"
      and "s = ini @ b # post" and "b \<notin> set post"
  shows "\<exists>body. s = pre @ a # body @ b # post"
proof -
  from assms(1,2,3) have "length pre \<le> length p"
    using first_le [of pre a r p "m @ b # q"] by simp
  moreover from assms(1,4,5) have "length (p @ a # m) \<le> length ini"
    using last_ge [of ini b post "p @ a # m" q] by simp
  ultimately have "length pre < length ini"
    by simp
  with assms(2,4) obtain body where "ini = pre @ a # body"
    using overlap_split [of pre a r ini b post] by auto
  with assms(4) show ?thesis
    by simp
qed


lemma span_unique:
  assumes "s = pre @ a # body @ b # post" "a \<notin> set pre" "b \<notin> set post"
      and "s = pre' @ a # body' @ b # post'" "a \<notin> set pre'" "b \<notin> set post'"
  shows "body = body'"
proof -
  from assms(1,4) have e: "pre @ a # body @ b # post = pre' @ a # body' @ b # post'"
    by simp
  from first_le [OF e assms(2)] first_le [OF e [symmetric] assms(5)]
  have "length pre = length pre'"
    by simp
  with e have m: "body @ b # post = body' @ b # post'"
    by simp
  from last_ge [OF m assms(3)] last_ge [OF m [symmetric] assms(6)]
  have "length body = length body'"
    by simp
  with m show ?thesis
    by simp
qed

lemma newsJsonText_fallback:
  assumes "group1 (match_re news_re (trim text)) = None"
  shows "newsJsonText text =
     (if indexOf (trim text) (CHR ''['') = - 1 \<or> lastIndexOf (trim text) (CHR '']'') = - 1 \<or>
         lastIndexOf (trim text) (CHR '']'') < indexOf (trim text) (CHR ''['')
      then Inl (Error ''The AI returned data in an unexpected format. Could not find a JSON array.'')
      else Inr (substring (trim text) (indexOf (trim text) (CHR ''[''))
                  (lastIndexOf (trim text) (CHR '']'') + 1)))"
  using assms by (simp add: newsJsonText_def Let_def)

lemma bracket_span:
  assumes "s = pre @ CHR ''['' # body @ CHR '']'' # post"
      and "CHR ''['' \<notin> set pre" and "CHR '']'' \<notin> set post"
  shows "indexOf s (CHR ''['') = int (length pre)"
    and "lastIndexOf s (CHR '']'') = int (length pre + length body + 1)"
    and "substring s (int (length pre)) (int (length pre + length body + 1) + 1) =
           CHR ''['' # body @ [CHR '']'']"
proof -
  show "indexOf s (CHR ''['') = int (length pre)"
    using assms(1,2) by (simp add: indexOf_known)
  show "lastIndexOf s (CHR '']'') = int (length pre + length body + 1)"
    using assms(3) lastIndexOf_known [of "CHR '']''" post "pre @ CHR ''['' # body"]
    by (simp add: assms(1))
  show "substring s (int (length pre)) (int (length pre + length body + 1) + 1) =
           CHR ''['' # body @ [CHR '']'']"
    using substring_mid [of pre "CHR ''['' # body @ [CHR '']'']" post]
    by (simp add: assms(1) add.commute)
qed

section \<open>Basic facts about the matcher\<close>

text \<open>
  The lemmas follow the pattern of \<open>fetchTrendingNews\<close> from the inside out: the greedy
  \<open>[\s\S]*\]\<close> offers the positions of \<open>]\<close> from the last to the first; the closing fence
  rejects those in a text without three backquotes; the first accepted one ends the group.
\<close>

lemma backquote_not_space: "\<not> is_space (CHR 0x60)"
  by (simp add: is_space_def)

lemma bracket_not_space: "\<not> is_space (CHR ''['')" "\<not> is_space (CHR '']'')"
  by (simp_all add: is_space_def)

lemma run_Seq_first:
  "run a st = x # xs \<Longrightarrow> run b x = y # ys \<Longrightarrow> \<exists>zs. run (Seq a b) st = y # zs"
  by simp

lemma run_Seq_skip:
  "run a st = xs1 @ x # xs2 \<Longrightarrow> \<forall>u\<in>set xs1. run b u = [] \<Longrightarrow> run b x = y # ys \<Longrightarrow>
     \<exists>zs. run (Seq a b) st = y # zs"
proof -
  assume a: "run a st = xs1 @ x # xs2" and s: "\<forall>u\<in>set xs1. run b u = []"
    and b: "run b x = y # ys"
  from s have c: "concat (map (run b) xs1) = []"
    by simp
  have "run (Seq a b) st = concat (map (run b) xs1) @ run b x @ concat (map (run b) xs2)"
    using a by simp
  also have "\<dots> = y # (ys @ concat (map (run b) xs2))"
    by (simp only: c b append_Nil append_Cons)
  finally show ?thesis
    by blast
qed

lemma run_Star_first:
  "run (Star k) (s, c) =
     (drop (length (takeWhile (in_class k) s)) s, c) #
       map (\<lambda>n. (drop n s, c)) (rev [0 ..< length (takeWhile (in_class k) s)])"
  by simp

lemma takeWhile_AnyChar: "takeWhile (in_class AnyChar) z = z"
  by (induction z) simp_all

lemma run_Star_AnyChar_Cons:
  "run (Star AnyChar) (x # z, c) = run (Star AnyChar) (z, c) @ [(x # z, c)]"
proof -
  have "[0 ..< Suc (Suc (length z))] = 0 # map Suc [0 ..< Suc (length z)]"
    by (subst upt_conv_Cons) (simp_all only: map_Suc_upt zero_less_Suc)
  then show ?thesis
    by (simp add: takeWhile_AnyChar rev_map comp_def del: upt_Suc)
qed

lemma closers_Nil: "run (Seq (Star AnyChar) (Lit '']'')) ([], c) = []"
  by simp

lemma closers_Cons:
  "run (Seq (Star AnyChar) (Lit '']'')) (x # z, c) =
     run (Seq (Star AnyChar) (Lit '']'')) (z, c) @ (if x = CHR '']'' then [(z, c)] else [])"
  by (simp only: run.simps(6) run_Star_AnyChar_Cons) simp

lemma closers_append:
  "\<exists>rest. run (Seq (Star AnyChar) (Lit '']'')) (z @ CHR '']'' # y, c) =
     run (Seq (Star AnyChar) (Lit '']'')) (y, c) @ (y, c) # rest"
proof (induction z)
  case Nil
  show ?case by (simp only: append_Nil closers_Cons) simp
next
  case (Cons x z)
  then obtain rest where "run (Seq (Star AnyChar) (Lit '']'')) (z @ CHR '']'' # y, c) =
     run (Seq (Star AnyChar) (Lit '']'')) (y, c) @ (y, c) # rest"
    by blast
  then show ?case
    by (simp only: append_Cons closers_Cons) simp
qed

lemma closers_mem:
  "(q, c') \<in> set (run (Seq (Star AnyChar) (Lit '']'')) (y, c)) \<Longrightarrow>
     c' = c \<and> (\<exists>a. y = a @ CHR '']'' # q)"
proof (induction y)
  case Nil
  then show ?case by (simp only: closers_Nil) simp
next
  case (Cons x y)
  from Cons.prems
  have "(q, c') \<in> set (run (Seq (Star AnyChar) (Lit '']'')) (y, c)) \<or>
        (x = CHR '']'' \<and> q = y \<and> c' = c)"
    by (simp only: closers_Cons) (auto split: if_splits)
  then show ?case
  proof
    assume "(q, c') \<in> set (run (Seq (Star AnyChar) (Lit '']'')) (y, c))"
    with Cons.IH obtain a where "c' = c" "y = a @ CHR '']'' # q"
      by blast
    then have "x # y = (x # a) @ CHR '']'' # q"
      by simp
    with \<open>c' = c\<close> show ?thesis by blast
  next
    assume "x = CHR '']'' \<and> q = y \<and> c' = c"
    then have "x # y = [] @ CHR '']'' # q" and "c' = c"
      by simp_all
    then show ?thesis by blast
  qed
qed

lemma prefix_fence_drop: "prefix fence (drop n q) \<Longrightarrow> sublist fence q"
proof -
  assume "prefix fence (drop n q)"
  then obtain ss where "drop n q = fence @ ss"
    by (auto simp: prefix_def)
  then have "q = take n q @ fence @ ss"
    by (metis append_take_drop_id)
  then show ?thesis
    unfolding sublist_def by blast
qed

lemma closing_fail:
  assumes "\<not> sublist fence q"
  shows "run (Seq (Star Space) (Lit fence)) (q, c) = []"
proof -
  have "run (Lit fence) (drop n q, c) = []" for n
    using assms prefix_fence_drop [of n q] by auto
  then show ?thesis
    by simp
qed

lemma takeWhile_spaces:
  "\<forall>x\<in>set ws. is_space x \<Longrightarrow> \<not> is_space y \<Longrightarrow> takeWhile is_space (ws @ y # r) = ws"
  by (induction ws) auto

lemma hd_fence: "fence @ r = CHR 0x60 # CHR 0x60 # CHR 0x60 # r"
  by (simp add: fence_def)

lemma closing_ok:
  assumes "\<forall>x\<in>set ws. is_space x"
  shows "\<exists>rest. run (Seq (Star Space) (Lit fence)) (ws @ fence @ post, c) = (post, c) # rest"
proof -
  have t: "takeWhile (in_class Space) (ws @ fence @ post) = ws"
    using takeWhile_spaces [OF assms backquote_not_space]
    by (simp add: hd_fence in_class.simps [abs_def])
  have "run (Star Space) (ws @ fence @ post, c) =
          (fence @ post, c) # map (\<lambda>n. (drop n (ws @ fence @ post), c)) (rev [0 ..< length ws])"
    unfolding run_Star_first t by simp
  moreover have "run (Lit fence) (fence @ post, c) = (post, c) # []"
    by simp
  ultimately show ?thesis
    by (rule run_Seq_first)
qed

lemma suffix_after:
  "a @ x # q = w @ post \<Longrightarrow> x \<notin> set w \<Longrightarrow> \<exists>a'. post = a' @ x # q"
  by (auto simp: append_eq_append_conv2 append_eq_Cons_conv Cons_eq_append_conv)

lemma array_group:
  "\<exists>rest. run (Cap (Seq (Lit ''['') (Seq (Star AnyChar) (Lit '']''))))
            (CHR ''['' # body @ CHR '']'' # y, c) =
     map (\<lambda>(s', _). (s', Some (take (length (CHR ''['' # body @ CHR '']'' # y) - length s')
                                  (CHR ''['' # body @ CHR '']'' # y))))
       (run (Seq (Star AnyChar) (Lit '']'')) (y, c)) @
     (y, Some (CHR ''['' # body @ [CHR '']''])) # rest"
proof -
  obtain rest where r: "run (Seq (Star AnyChar) (Lit '']'')) (body @ CHR '']'' # y, c) =
      run (Seq (Star AnyChar) (Lit '']'')) (y, c) @ (y, c) # rest"
    using closers_append by blast
  have "run (Seq (Lit ''['') (Seq (Star AnyChar) (Lit '']''))) (CHR ''['' # body @ CHR '']'' # y, c) =
      run (Seq (Star AnyChar) (Lit '']'')) (body @ CHR '']'' # y, c)"
    by (subst run.simps(6)) (simp del: run.simps(6))
  then show ?thesis
    by (simp add: r del: run.simps(6))
qed

lemma bracket_not_in_fence: "\<forall>x\<in>set ws2. is_space x \<Longrightarrow> CHR '']'' \<notin> set (ws2 @ fence)"
  using bracket_not_space(2) by (auto simp: fence_def)

lemma later_closer_fails:
  assumes ws2: "\<forall>x\<in>set ws2. is_space x" and post: "\<not> sublist fence post"
      and m: "(q, c') \<in> set (run (Seq (Star AnyChar) (Lit '']'')) (ws2 @ fence @ post, c))"
  shows "run (Seq (Star Space) (Lit fence)) (q, d) = []"
proof -
  from closers_mem [OF m] obtain a where "ws2 @ fence @ post = a @ CHR '']'' # q"
    by (elim conjE exE)
  then have "a @ CHR '']'' # q = (ws2 @ fence) @ post"
    by simp
  from suffix_after [OF this bracket_not_in_fence [OF ws2]]
  obtain a' where "post = a' @ CHR '']'' # q" ..
  then have "post = (a' @ [CHR '']'']) @ q"
    by simp
  then have "suffix q post"
    by (rule suffixI)
  then have "sublist q post"
    by (rule suffix_imp_sublist)
  with post have "\<not> sublist fence q"
    using sublist_order.order.trans by blast
  then show ?thesis
    by (rule closing_fail)
qed


lemma array_then_fence:
  assumes ws2: "\<forall>x\<in>set ws2. is_space x" and post: "\<not> sublist fence post"
  shows "\<exists>rest. run (Seq (Cap (Seq (Lit ''['') (Seq (Star AnyChar) (Lit '']''))))
                    (Seq (Star Space) (Lit fence)))
            (CHR ''['' # body @ CHR '']'' # ws2 @ fence @ post, c) =
          (post, Some (CHR ''['' # body @ [CHR '']''])) # rest"
proof -
  let ?y = "ws2 @ fence @ post"
  let ?s = "CHR ''['' # body @ CHR '']'' # ?y"
  let ?f = "\<lambda>(s', _::string option). (s', Some (take (length ?s - length s') ?s))"
  from array_group [of body ?y c]
  obtain rest where g: "run (Cap (Seq (Lit ''['') (Seq (Star AnyChar) (Lit '']'')))) (?s, c) =
      map ?f (run (Seq (Star AnyChar) (Lit '']'')) (?y, c)) @
      (?y, Some (CHR ''['' # body @ [CHR '']''])) # rest" ..
  have later: "\<forall>u\<in>set (map ?f (run (Seq (Star AnyChar) (Lit '']'')) (?y, c))).
      run (Seq (Star Space) (Lit fence)) u = []"
  proof
    fix u assume "u \<in> set (map ?f (run (Seq (Star AnyChar) (Lit '']'')) (?y, c)))"
    then obtain v where v: "v \<in> set (run (Seq (Star AnyChar) (Lit '']'')) (?y, c))" and uv: "u = ?f v"
      unfolding set_map by (rule imageE)
    obtain q c' where qc: "v = (q, c')"
      by (cases v)
    from uv have u: "u = (q, Some (take (length ?s - length q) ?s))"
      unfolding qc by (simp only: prod.case)
    from v have m: "(q, c') \<in> set (run (Seq (Star AnyChar) (Lit '']'')) (?y, c))"
      unfolding qc .
    show "run (Seq (Star Space) (Lit fence)) u = []"
      unfolding u using ws2 post m by (rule later_closer_fails)
  qed
  from closing_ok [OF ws2, of post "Some (CHR ''['' # body @ [CHR '']''])"]
  obtain rest' where ok: "run (Seq (Star Space) (Lit fence)) (?y, Some (CHR ''['' # body @ [CHR '']''])) =
      (post, Some (CHR ''['' # body @ [CHR '']''])) # rest'" ..
  from run_Seq_skip [OF g later ok] show ?thesis .
qed


lemma spaces_then_array:
  assumes ws1: "\<forall>x\<in>set ws1. is_space x"
      and ws2: "\<forall>x\<in>set ws2. is_space x" and post: "\<not> sublist fence post"
  shows "\<exists>rest. run (Seq (Star Space)
                   (Seq (Cap (Seq (Lit ''['') (Seq (Star AnyChar) (Lit '']''))))
                     (Seq (Star Space) (Lit fence))))
            (ws1 @ CHR ''['' # body @ CHR '']'' # ws2 @ fence @ post, c) =
          (post, Some (CHR ''['' # body @ [CHR '']''])) # rest"
proof -
  let ?s = "CHR ''['' # body @ CHR '']'' # ws2 @ fence @ post"
  have t: "takeWhile (in_class Space) (ws1 @ ?s) = ws1"
    using takeWhile_spaces [OF ws1 bracket_not_space(1)]
    by (simp add: in_class.simps [abs_def])
  have star: "run (Star Space) (ws1 @ ?s, c) =
          (?s, c) # map (\<lambda>n. (drop n (ws1 @ ?s), c)) (rev [0 ..< length ws1])"
    unfolding run_Star_first t by simp
  from array_then_fence [OF ws2 post, of body c]
  obtain rest where arr: "run (Seq (Cap (Seq (Lit ''['') (Seq (Star AnyChar) (Lit '']''))))
                     (Seq (Star Space) (Lit fence))) (?s, c) =
          (post, Some (CHR ''['' # body @ [CHR '']''])) # rest" ..
  from star arr show ?thesis
    by (rule run_Seq_first)
qed

lemma not_json: "\<forall>x\<in>set ws1. is_space x \<Longrightarrow> \<not> prefix ''json'' (ws1 @ CHR ''['' # r)"
  by (cases ws1) (auto simp: is_space_def)

lemma tag_then_array:
  assumes tag: "tag = [] \<or> tag = ''json''"
      and ws1: "\<forall>x\<in>set ws1. is_space x"
      and ws2: "\<forall>x\<in>set ws2. is_space x" and post: "\<not> sublist fence post"
  shows "\<exists>rest. run (Seq (Opt (Lit ''json'')) (Seq (Star Space)
                   (Seq (Cap (Seq (Lit ''['') (Seq (Star AnyChar) (Lit '']''))))
                     (Seq (Star Space) (Lit fence)))))
            (tag @ ws1 @ CHR ''['' # body @ CHR '']'' # ws2 @ fence @ post, c) =
          (post, Some (CHR ''['' # body @ [CHR '']''])) # rest"
proof -
  let ?x = "ws1 @ CHR ''['' # body @ CHR '']'' # ws2 @ fence @ post"
  from spaces_then_array [OF ws1 ws2 post, of body c]
  obtain rest where r: "run (Seq (Star Space)
                   (Seq (Cap (Seq (Lit ''['') (Seq (Star AnyChar) (Lit '']''))))
                     (Seq (Star Space) (Lit fence)))) (?x, c) =
          (post, Some (CHR ''['' # body @ [CHR '']''])) # rest" ..
  from tag show ?thesis
  proof
    assume "tag = []"
    then have "run (Opt (Lit ''json'')) (tag @ ?x, c) = (?x, c) # []"
      using not_json [OF ws1] by simp
    from this r show ?thesis
      by (rule run_Seq_first)
  next
    assume "tag = ''json''"
    then have "run (Opt (Lit ''json'')) (tag @ ?x, c) = (?x, c) # [(tag @ ?x, c)]"
      by simp
    from this r show ?thesis
      by (rule run_Seq_first)
  qed
qed

lemma exec_at_fenced:
  assumes tag: "tag = [] \<or> tag = ''json''"
      and ws1: "\<forall>x\<in>set ws1. is_space x"
      and ws2: "\<forall>x\<in>set ws2. is_space x" and post: "\<not> sublist fence post"
  shows "exec_at news_re (fence @ tag @ ws1 @ CHR ''['' # body @ CHR '']'' # ws2 @ fence @ post) =
           Some (Some (CHR ''['' # body @ [CHR '']'']))"
proof -
  let ?x = "tag @ ws1 @ CHR ''['' # body @ CHR '']'' # ws2 @ fence @ post"
  have lit: "run (Lit fence) (fence @ ?x, None) = (?x, None) # []"
    by simp
  from tag_then_array [OF tag ws1 ws2 post, of body None]
  obtain rest where tl: "run (Seq (Opt (Lit ''json'')) (Seq (Star Space)
                   (Seq (Cap (Seq (Lit ''['') (Seq (Star AnyChar) (Lit '']''))))
                     (Seq (Star Space) (Lit fence))))) (?x, None) =
          (post, Some (CHR ''['' # body @ [CHR '']''])) # rest" ..
  from run_Seq_first [OF lit tl]
  obtain zs where "run news_re (fence @ ?x, None) =
      (post, Some (CHR ''['' # body @ [CHR '']''])) # zs"
    unfolding news_re_def ..
  then show ?thesis
    unfolding exec_at_def by (simp only: list.case prod.case)
qed

lemma run_Seq_Nil: "run a st = [] \<Longrightarrow> run (Seq a b) st = []"
  by simp

lemma tail_backquote:
  "run (Seq (Opt (Lit ''json'')) (Seq (Star Space)
          (Seq (Cap (Seq (Lit ''['') (Seq (Star AnyChar) (Lit '']''))))
            (Seq (Star Space) (Lit fence))))) (CHR 0x60 # u, c) = []"
  by (simp add: backquote_not_space)

lemma exec_at_before_fence:
  assumes b: "b \<noteq> []" and nf: "\<not> sublist fence b"
  shows "exec_at news_re (b @ fence @ x) = None"
proof -
  have "run news_re (b @ fence @ x, None) = []"
  proof (cases "prefix fence (b @ fence @ x)")
    case False
    then have "run (Lit fence) (b @ fence @ x, None) = []"
      by simp
    then show ?thesis
      unfolding news_re_def by (rule run_Seq_Nil)
  next
    case True
    have "\<exists>u. drop (length fence) (b @ fence @ x) = CHR 0x60 # u"
    proof (cases b)
      case Nil
      with b show ?thesis by simp
    next
      case b1: (Cons b1 r1)
      show ?thesis
      proof (cases r1)
        case Nil
        with b1 show ?thesis by (simp add: fence_def)
      next
        case b2: (Cons b2 r2)
        show ?thesis
        proof (cases r2)
          case Nil
          with b1 b2 show ?thesis by (simp add: fence_def)
        next
          case b3: (Cons b3 r3)
          with True b1 b2 have "b = fence @ r3"
            by (auto simp: fence_def)
          then have "sublist fence b"
            by simp
          with nf show ?thesis ..
        qed
      qed
    qed
    then obtain u where u: "drop (length fence) (b @ fence @ x) = CHR 0x60 # u" ..
    have "run (Lit fence) (b @ fence @ x, None) = [(CHR 0x60 # u, None)]"
      using True u by simp
    then show ?thesis
      unfolding news_re_def
      by (subst run.simps(6)) (simp only: list.map concat.simps tail_backquote append_Nil)
  qed
  then show ?thesis
    by (simp add: exec_at_def)
qed

lemma match_re_skip:
  "(\<And>k. k < length p \<Longrightarrow> exec_at r (drop k p @ s) = None) \<Longrightarrow> match_re r (p @ s) = match_re r s"
proof (induction p)
  case Nil
  show ?case by simp
next
  case (Cons x p)
  from Cons.prems [of 0] have "exec_at r (x # p @ s) = None"
    by simp
  moreover have "match_re r (p @ s) = match_re r s"
  proof (rule Cons.IH)
    fix k assume "k < length p"
    with Cons.prems [of "Suc k"] show "exec_at r (drop k p @ s) = None"
      by simp
  qed
  ultimately show ?case
    by simp
qed

lemma match_re_here: "s \<noteq> [] \<Longrightarrow> exec_at r s = Some c \<Longrightarrow> match_re r s = Some c"
  by (cases s) simp_all

lemma match_re_fenced:
  assumes pre: "\<not> sublist fence pre" and post: "\<not> sublist fence post"
      and tag: "tag = [] \<or> tag = ''json''"
      and ws1: "\<forall>x\<in>set ws1. is_space x" and ws2: "\<forall>x\<in>set ws2. is_space x"
  shows "match_re news_re
           (pre @ fence @ tag @ ws1 @ CHR ''['' # body @ CHR '']'' # ws2 @ fence @ post) =
         Some (Some (CHR ''['' # body @ [CHR '']'']))"
proof -
  let ?x = "tag @ ws1 @ CHR ''['' # body @ CHR '']'' # ws2 @ fence @ post"
  have "match_re news_re (pre @ fence @ ?x) = match_re news_re (fence @ ?x)"
  proof (rule match_re_skip)
    fix k assume k: "k < length pre"
    then have "drop k pre \<noteq> []"
      by simp
    moreover have "\<not> sublist fence (drop k pre)"
      using pre sublist_order.order.trans [OF _ sublist_drop] by blast
    ultimately have "exec_at news_re (drop k pre @ fence @ ?x) = None"
      by (rule exec_at_before_fence)
    then show "exec_at news_re (drop k pre @ fence @ ?x) = None" .
  qed
  also have "\<dots> = Some (Some (CHR ''['' # body @ [CHR '']'']))"
  proof (rule match_re_here)
    show "fence @ ?x \<noteq> []"
      by (simp add: fence_def)
    show "exec_at news_re (fence @ ?x) = Some (Some (CHR ''['' # body @ [CHR '']'']))"
      using tag ws1 ws2 post by (rule exec_at_fenced)
  qed
  finally show ?thesis .
qed

lemma trim_around:
  assumes "mid \<noteq> []" and "\<not> is_space (hd mid)" and "\<not> is_space (last mid)"
  shows "trim (pre @ mid @ post) =
           dropWhile is_space pre @ mid @ rev (dropWhile is_space (rev post))"
proof -
  obtain h t where mid: "mid = h # t"
    using assms(1) by (cases mid) auto
  with assms(2) have h: "\<not> is_space h"
    by simp
  have front: "dropWhile is_space (pre @ mid @ post) = dropWhile is_space pre @ mid @ post"
    using h by (simp add: mid dropWhile_append)
  obtain l i where rmid: "rev mid = l # i"
    using assms(1) by (cases "rev mid") auto
  then have "l = last mid"
    by (metis assms(1) last_rev list.sel(1) rev_rev_ident hd_rev)
  with assms(3) have l: "\<not> is_space l"
    by simp
  have "dropWhile is_space (rev (dropWhile is_space pre @ mid @ post)) =
          dropWhile is_space (rev post) @ rev mid @ rev (dropWhile is_space pre)"
    using l by (simp add: rmid dropWhile_append)
  then show ?thesis
    by (simp add: trim_def front)
qed

lemma prefix_rev_dropWhile: "prefix (rev (dropWhile P (rev xs))) xs"
proof -
  have "rev (takeWhile P (rev xs) @ dropWhile P (rev xs)) = xs"
    by simp
  then have "xs = rev (dropWhile P (rev xs)) @ rev (takeWhile P (rev xs))"
    by (simp only: rev_append)
  then show ?thesis
    by (rule prefixI)
qed

section \<open>Basic facts about the handlers\<close>

lemma idle_fields:
  "loadingAction s = None \<Longrightarrow> loadingMessage s = [] \<Longrightarrow>
     s\<lparr>error := e, refinementPrompt := r, loadingAction := None, loadingMessage := []\<rparr> =
     s\<lparr>error := e, refinementPrompt := r\<rparr>"
  by (cases s) simp

lemma catch_finally_None [simp]:
  "catch_finally (None, s, log) = (s\<lparr>loadingAction := None, loadingMessage := []\<rparr>, log)"
  by (simp add: catch_finally_def)

lemma catch_finally_Some [simp]:
  "catch_finally (Some e, s, log) =
     (s\<lparr>error := Some (message_of e), loadingAction := None, loadingMessage := []\<rparr>, log)"
  by (simp add: catch_finally_def)

lemma refine_json_try_error:
  "refine_json_try env s result = (Some e, s', log) \<Longrightarrow>
     s' = s\<lparr>loadingMessage := loadingMessage s'\<rparr>"
  unfolding refine_json_try_def Let_def
  by (simp split: sum.splits option.splits if_splits prod.splits) auto

lemma refine_try_error:
  "refine_try env s html = (Some e, s', log) \<Longrightarrow> s' = s\<lparr>loadingMessage := loadingMessage s'\<rparr>"
  unfolding refine_try_def Let_def
  apply (simp split: sum.splits option.splits if_splits prod.splits)
    apply auto[1]
   apply (auto dest!: refine_json_try_error)[1]
  done

lemma refine_json_try_ok:
  "refine_json_try env s result = (None, s', log) \<Longrightarrow>
     \<exists>jsonResponse p imageBase64.
       JSON_parse env result = Inr jsonResponse \<and>
       get_prop jsonResponse ''requestType'' = Inr (Some (JStr ''image'')) \<and>
       get_prop jsonResponse ''newImagePrompt'' = Inr (Some p) \<and> truthy p \<and>
       generateHeaderImage env p = (Inr imageBase64, log) \<and>
       s' = s\<lparr>loadingMessage := ''Generating new header image...'',
              headerImageUrl := Some (data_uri imageBase64)\<rparr>"
  unfolding refine_json_try_def Let_def
  by (simp split: sum.splits option.splits if_splits prod.splits)

lemma refine_try_ok_error:
  "refine_try env s html = (None, s', log) \<Longrightarrow> error s' = error s"
  unfolding refine_try_def Let_def
  by (auto split: sum.splits option.splits if_splits prod.splits dest!: refine_json_try_ok)

lemma truthy_length: "truthy a \<Longrightarrow> \<exists>b. length_is_zero a = Inr b"
  by (cases a) (auto simp: length_is_zero_def)

lemma parseArticles_ok: "parseArticles env j = Inr a \<Longrightarrow> length_is_zero a = Inr False"
  using truthy_length [of a]
  by (auto simp: parseArticles_def split: sum.splits if_splits)

lemma fetchTrendingNews_ok:
  "fetchTrendingNews env ts n = (Inr a, l) \<Longrightarrow> length_is_zero a = Inr False"
  by (auto simp: fetchTrendingNews_def try_catch_def Let_def split: sum.splits dest: parseArticles_ok)

lemma newsletterOptions_reset [simp]:
  "newsletterOptions (s\<lparr>loadingAction := a, error := e, newsletterHtml := h,
      headerImageUrl := i, articles := x\<rparr>) = newsletterOptions s"
  by (simp add: newsletterOptions_def)

lemma image_prompt_reset [simp]:
  "image_prompt (s\<lparr>loadingAction := a, error := e, newsletterHtml := h,
      headerImageUrl := i, articles := x\<rparr>) = image_prompt s"
  by (simp add: image_prompt_def)

lemma snd_generateNewsletter:
  "snd (generateNewsletter env a opts) =
     [GenerateContent ''gemini-2.5-flash'' (newsletter_prompt (JSON_stringify env a) opts) False]"
  by (simp add: generateNewsletter_def Let_def)

lemma generate_try_after_fetch:
  assumes f: "fetchTrendingNews env (topics s0) (minArticles s0) = (Inr a, l1)"
  shows "\<exists>r s' rest. generate_try env s0 =
            (r, s', l1 @ snd (generateNewsletter env a (newsletterOptions s0)) @ rest) \<and>
          articles s' = a"
proof -
  from f have z: "length_is_zero a = Inr False"
    by (rule fetchTrendingNews_ok)
  obtain r2 l2 where g: "generateNewsletter env a (newsletterOptions s0) = (r2, l2)"
    by fastforce
  obtain r3 l3 where i: "generateHeaderImage env (JStr (image_prompt s0)) = (r3, l3)"
    by fastforce
  show ?thesis
  proof (cases r2)
    case (Inl e)
    with f z g show ?thesis
      by (simp add: generate_try_def)
  next
    case (Inr html)
    with f z g i show ?thesis
      by (cases r3; cases "shouldGenerateImage s0") (simp_all add: generate_try_def)
  qed
qed

section \<open>Extraction of the news array\<close>

text \<open>
  Claim C4, as stated: whatever surrounds a fenced block with an array, the extraction
  returns the array of that block. The group of the pattern is greedy: with two fenced
  blocks in the response it runs from the \<open>[\<close> of the first to the \<open>]\<close> of the last, which
  is the array of neither.
\<close>

theorem two_fences_counterexample:
  "newsJsonText (fence @ ''[0]'' @ fence @ '' or '' @ fence @ ''[1]'' @ fence) =
     Inr (''[0]'' @ fence @ '' or '' @ fence @ ''[1]'') \<and>
   newsJsonText (fence @ ''[0]'' @ fence @ '' or '' @ fence @ ''[1]'' @ fence) \<noteq> Inr ''[0]'' \<and>
   newsJsonText (fence @ ''[0]'' @ fence @ '' or '' @ fence @ ''[1]'' @ fence) \<noteq> Inr ''[1]''"
  by code_simp

text \<open>
  Claim C4, amended: for a response made of a text, three backquotes, an optional \<open>json\<close>
  tag, optional white space, an array text (from a \<open>[\<close> to a \<open>]\<close>), optional white space,
  three backquotes and a text, where neither of the two surrounding texts contains three
  backquotes in a row, the extraction returns exactly the array text.
\<close>

theorem fenced_array_extracted:
  assumes pre: "\<not> sublist fence pre" and post: "\<not> sublist fence post"
      and tag: "tag = [] \<or> tag = ''json''"
      and ws1: "\<forall>x\<in>set ws1. is_space x" and ws2: "\<forall>x\<in>set ws2. is_space x"
  shows "newsJsonText
           (pre @ fence @ tag @ ws1 @ CHR ''['' # body @ CHR '']'' # ws2 @ fence @ post) =
         Inr (CHR ''['' # body @ [CHR '']''])"
proof -
  let ?mid = "fence @ tag @ ws1 @ CHR ''['' # body @ CHR '']'' # ws2 @ fence"
  let ?pre = "dropWhile is_space pre"
  let ?post = "rev (dropWhile is_space (rev post))"
  have "trim (pre @ ?mid @ post) = ?pre @ ?mid @ ?post"
  proof (rule trim_around)
    show "?mid \<noteq> []"
      by (simp add: fence_def)
    show "\<not> is_space (hd ?mid)"
      by (simp add: fence_def backquote_not_space)
    show "\<not> is_space (last ?mid)"
      by (simp add: fence_def backquote_not_space)
  qed
  then have t: "trim (pre @ fence @ tag @ ws1 @ CHR ''['' # body @ CHR '']'' # ws2 @ fence @ post) =
      ?pre @ fence @ tag @ ws1 @ CHR ''['' # body @ CHR '']'' # ws2 @ fence @ ?post"
    by simp
  have pre': "\<not> sublist fence ?pre"
    using pre sublist_order.order.trans [OF _ sublist_dropWhile] by blast
  have "sublist ?post post"
    using prefix_rev_dropWhile by (rule prefix_imp_sublist)
  with post have post': "\<not> sublist fence ?post"
    using sublist_order.order.trans by blast
  have "match_re news_re
      (?pre @ fence @ tag @ ws1 @ CHR ''['' # body @ CHR '']'' # ws2 @ fence @ ?post) =
      Some (Some (CHR ''['' # body @ [CHR '']'']))"
    using pre' post' tag ws1 ws2 by (rule match_re_fenced)
  then have "group1 (match_re news_re
      (trim (pre @ fence @ tag @ ws1 @ CHR ''['' # body @ CHR '']'' # ws2 @ fence @ post))) =
      Some (CHR ''['' # body @ [CHR '']''])"
    unfolding t by (simp add: group1_def)
  then show ?thesis
    by (simp add: newsJsonText_def)
qed

theorem fenced_array_extracted_witness:
  "newsJsonText (''Here it is: '' @ fence @ ''json\<newline>[1, [2]]\<newline>'' @ fence @ '' Bye.'') =
     Inr ''[1, [2]]''"
proof -
  have pre: "\<not> sublist fence ''Here it is: ''"
    by (simp add: fence_def sublist_Cons_right)
  have post: "\<not> sublist fence '' Bye.''"
    by (simp add: fence_def sublist_Cons_right)
  have tag: "''json'' = [] \<or> ''json'' = ''json''"
    by simp
  have ws: "\<forall>x\<in>set ''\<newline>''. is_space x"
    by (simp add: is_space_def)
  from fenced_array_extracted [OF pre post tag ws ws, of "''1, [2]''"]
  show ?thesis
    by simp
qed

text \<open>
  Claim C5: when the fence pattern does not match the trimmed response, the result is
  decided by the brackets alone. If the text has a \<open>[\<close> and a later \<open>]\<close>, the result is the
  text from the first \<open>[\<close> to the last \<open>]\<close>, both included; otherwise (no \<open>[\<close>, no \<open>]\<close>, or
  every \<open>]\<close> before every \<open>[\<close>) the extraction throws its error.
\<close>

theorem bracket_fallback:
  assumes nofence: "group1 (match_re news_re (trim text)) = None"
  shows "((\<exists>p m q. trim text = p @ CHR ''['' # m @ CHR '']'' # q) \<longrightarrow>
            (\<exists>pre body post. trim text = pre @ CHR ''['' # body @ CHR '']'' # post \<and>
               CHR ''['' \<notin> set pre \<and> CHR '']'' \<notin> set post \<and>
               newsJsonText text = Inr (CHR ''['' # body @ [CHR '']'']))) \<and>
         (\<not> (\<exists>p m q. trim text = p @ CHR ''['' # m @ CHR '']'' # q) \<longrightarrow>
            newsJsonText text =
              Inl (Error ''The AI returned data in an unexpected format. Could not find a JSON array.''))"
proof (intro conjI impI)
  let ?s = "trim text"
  assume "\<exists>p m q. ?s = p @ CHR ''['' # m @ CHR '']'' # q"
  then obtain p m q where d: "?s = p @ CHR ''['' # m @ CHR '']'' # q"
    by blast
  then have "CHR ''['' \<in> set ?s" and "CHR '']'' \<in> set ?s"
    by simp_all
  then obtain pre r ini post
    where first: "?s = pre @ CHR ''['' # r" "CHR ''['' \<notin> set pre"
      and last: "?s = ini @ CHR '']'' # post" "CHR '']'' \<notin> set post"
    by (meson split_list_first split_list_last)
  from first_before_last [OF d first last]
  obtain body where span: "?s = pre @ CHR ''['' # body @ CHR '']'' # post"
    by blast
  note b = bracket_span [OF span first(2) last(2)]
  have "newsJsonText text = Inr (CHR ''['' # body @ [CHR '']''])"
    unfolding newsJsonText_fallback [OF nofence] b(1,2) using b(3) by simp
  with span first(2) last(2)
  show "\<exists>pre body post. ?s = pre @ CHR ''['' # body @ CHR '']'' # post \<and>
          CHR ''['' \<notin> set pre \<and> CHR '']'' \<notin> set post \<and>
          newsJsonText text = Inr (CHR ''['' # body @ [CHR '']''])"
    by blast
next
  let ?s = "trim text"
  assume none: "\<not> (\<exists>p m q. ?s = p @ CHR ''['' # m @ CHR '']'' # q)"
  have "indexOf ?s (CHR ''['') = - 1 \<or> lastIndexOf ?s (CHR '']'') = - 1 \<or>
        lastIndexOf ?s (CHR '']'') < indexOf ?s (CHR ''['')"
  proof (rule ccontr)
    assume neg: "\<not> ?thesis"
    then have "CHR ''['' \<in> set ?s" and "CHR '']'' \<in> set ?s"
      by (auto simp: indexOf_def lastIndexOf_def split: if_splits)
    then obtain pre r ini post
      where first: "?s = pre @ CHR ''['' # r" "CHR ''['' \<notin> set pre"
        and last: "?s = ini @ CHR '']'' # post" "CHR '']'' \<notin> set post"
      by (meson split_list_first split_list_last)
    have i: "indexOf ?s (CHR ''['') = int (length pre)"
      by (subst first(1)) (simp add: indexOf_known first(2))
    have j: "lastIndexOf ?s (CHR '']'') = int (length ini)"
      by (subst last(1)) (simp add: lastIndexOf_known last(2))
    from neg i j have le: "length pre \<le> length ini"
      by simp
    have "length pre \<noteq> length ini"
    proof
      assume "length pre = length ini"
      with first(1) last(1) have "CHR ''['' = CHR '']''"
        by (metis append_eq_append_conv list.inject)
      then show False by simp
    qed
    with le have "length pre < length ini"
      by simp
    from overlap_split [OF _ this, of "CHR ''[''" r "CHR '']''" post] first(1) last(1)
    obtain body where "ini = pre @ CHR ''['' # body"
      by auto
    with last(1) have "?s = pre @ CHR ''['' # body @ CHR '']'' # post"
      by simp
    with none show False
      by blast
  qed
  then show "newsJsonText text =
      Inl (Error ''The AI returned data in an unexpected format. Could not find a JSON array.'')"
    unfolding newsJsonText_fallback [OF nofence] by simp
qed

theorem bracket_fallback_witness:
  "newsJsonText ''Here you go: [1, [2]] and ] more'' = Inr ''[1, [2]] and ]'' \<and>
   newsJsonText ''] nothing useful ['' =
     Inl (Error ''The AI returned data in an unexpected format. Could not find a JSON array.'')"
proof -
  let ?a = "''Here you go: [1, [2]] and ] more''"
  let ?b = "''] nothing useful [''"
  have na: "group1 (match_re news_re (trim ?a)) = None"
    by code_simp
  have nb: "group1 (match_re news_re (trim ?b)) = None"
    by code_simp
  have ta: "trim ?a = ''Here you go: '' @ CHR ''['' # ''1, [2]] and '' @ CHR '']'' # '' more''"
    by code_simp
  have fa: "CHR ''['' \<notin> set ''Here you go: ''" and la: "CHR '']'' \<notin> set '' more''"
    by simp_all
  from bracket_fallback [OF na] ta
  obtain pre body post where
    span: "trim ?a = pre @ CHR ''['' # body @ CHR '']'' # post"
      "CHR ''['' \<notin> set pre" "CHR '']'' \<notin> set post" and
    res: "newsJsonText ?a = Inr (CHR ''['' # body @ [CHR '']''])"
    by blast
  from span_unique [OF span ta fa la] have "body = ''1, [2]] and ''" .
  with res have a: "newsJsonText ?a = Inr ''[1, [2]] and ]''"
    by simp
  have "\<not> (\<exists>p m q. trim ?b = p @ CHR ''['' # m @ CHR '']'' # q)"
  proof
    assume "\<exists>p m q. trim ?b = p @ CHR ''['' # m @ CHR '']'' # q"
    then obtain p m q where e: "trim ?b = p @ CHR ''['' # m @ CHR '']'' # q"
      by blast
    have tb: "trim ?b = ''] nothing useful '' @ CHR ''['' # []"
      by code_simp
    have "CHR ''['' \<notin> set ''] nothing useful ''"
      by simp
    from first_le [OF _ this, of "[]" p "m @ CHR '']'' # q"] e tb
    have "length ''] nothing useful '' \<le> length p"
      by simp
    moreover from e tb have "length (p @ CHR ''['' # m @ CHR '']'' # q) = length (''] nothing useful '' @ CHR ''['' # [])"
      by simp
    ultimately show False
      by simp
  qed
  with bracket_fallback [OF nb]
  have "newsJsonText ?b =
     Inl (Error ''The AI returned data in an unexpected format. Could not find a JSON array.'')"
    by blast
  with a show ?thesis
    by (rule conjI)
qed

section \<open>Single flight\<close>

text \<open>
  Claim C1, as stated: whenever a cycle is active, invoking the generation or the refinement
  entry point is a no-op. The handlers do not read \<open>loadingAction\<close>: called in a state with
  an active cycle, each of them sends a request and changes the state.
\<close>

theorem handlers_ignore_loading_counterexample:
  "isLoading busy_state \<and>
   length (snd (handleGenerateNewsletter (sample_env (Inl (Error ''503'')) (Inr None)) busy_state)) = 1 \<and>
   newsletterHtml (fst (handleGenerateNewsletter (sample_env (Inl (Error ''503'')) (Inr None)) busy_state))
     \<noteq> newsletterHtml busy_state \<and>
   length (snd (handleRefineNewsletter (sample_env (Inl (Error ''503'')) (Inr None)) busy_state)) = 1 \<and>
   refinementPrompt (fst (handleRefineNewsletter (sample_env (Inl (Error ''503'')) (Inr None)) busy_state))
     \<noteq> refinementPrompt busy_state"
  by code_simp

text \<open>
  Claim C1, amended: the guard is in the view. While a cycle is active both buttons are
  disabled, so a click calls no handler: the state is unchanged and no request is sent.
\<close>

theorem busy_click_is_noop:
  "isLoading s \<Longrightarrow> clickGenerate env s = (s, []) \<and> clickRefine env s = (s, [])"
  by (simp add: clickGenerate_def clickRefine_def)

theorem busy_click_is_noop_witness:
  "isLoading busy_state \<and>
   clickGenerate (sample_env (Inl (Error ''503'')) (Inr None)) busy_state = (busy_state, []) \<and>
   clickRefine (sample_env (Inl (Error ''503'')) (Inr None)) busy_state = (busy_state, [])"
proof -
  have busy: "isLoading busy_state"
    by code_simp
  from busy_click_is_noop [OF busy] busy show ?thesis
    by blast
qed

section \<open>Validation of the topic list\<close>

text \<open>
  Claim C7: with an empty topic list \<open>handleGenerateNewsletter\<close> sends no request and only
  records the validation message in \<open>error\<close>; every other field keeps its value.
\<close>

theorem handleGenerateNewsletter_empty_topics:
  "topics s = [] \<Longrightarrow>
   handleGenerateNewsletter env s = (s\<lparr>error := Some ''Please add at least one topic.''\<rparr>, [])"
  by (simp add: handleGenerateNewsletter_def)

theorem handleGenerateNewsletter_empty_topics_witness:
  "topics (document_state\<lparr>topics := []\<rparr>) = [] \<and>
   handleGenerateNewsletter (sample_env (Inr ''[{}]'') (Inr None)) (document_state\<lparr>topics := []\<rparr>) =
     (document_state\<lparr>topics := [], error := Some ''Please add at least one topic.''\<rparr>, [])"
  using handleGenerateNewsletter_empty_topics
    [of "document_state\<lparr>topics := []\<rparr>" "sample_env (Inr ''[{}]'') (Inr None)"]
  by simp

section \<open>Error messages of the news step\<close>

text \<open>
  Claim C2 at a response without brackets: the extraction raises its own error, but the
  \<open>catch\<close> block of \<open>fetchTrendingNews\<close> replaces every error that is not a \<open>SyntaxError\<close>
  by the message it also uses for a rejected request. Only the parse failure keeps a message
  of its own.
\<close>

theorem extraction_error_reported_as_fetch_failure:
  "newsJsonText ''no array here'' =
     Inl (Error ''The AI returned data in an unexpected format. Could not find a JSON array.'') \<and>
   fst (fetchTrendingNews (sample_env (Inr ''no array here'') (Inr None)) [''AI''] 5) =
     Inl (Error ''Failed to fetch news from the AI. Check API key or try again later.'') \<and>
   fst (fetchTrendingNews (sample_env (Inl (Error ''503'')) (Inr None)) [''AI''] 5) =
     Inl (Error ''Failed to fetch news from the AI. Check API key or try again later.'') \<and>
   fst (fetchTrendingNews (sample_env (Inr ''[not json]'') (Inr None)) [''AI''] 5) =
     Inl (Error ''Failed to parse the news data from the AI. The format was invalid.'')"
  by code_simp

text \<open>
  Claim C3 at the response \<open>[]\<close>: the empty array is rejected, but the message stored in
  \<open>error\<close> is the one of a failed request, the same as when the service rejects the call;
  neither of the two empty-result messages of the source reaches the state.
\<close>

theorem empty_array_reported_as_fetch_failure:
  "parseArticles (sample_env (Inr ''[]'') (Inr None)) ''[]'' =
     Inl (Error ''The AI returned no articles. The response might be empty or in an unexpected format.'') \<and>
   error (fst (handleGenerateNewsletter (sample_env (Inr ''[]'') (Inr None)) initial_state)) =
     Some ''Failed to fetch news from the AI. Check API key or try again later.'' \<and>
   error (fst (handleGenerateNewsletter (sample_env (Inl (Error ''503'')) (Inr None)) initial_state)) =
     Some ''Failed to fetch news from the AI. Check API key or try again later.''"
  by code_simp

theorem empty_array_reported_as_fetch_failure_witness:
  "error (fst (handleGenerateNewsletter (sample_env (Inr ''[]'') (Inr None)) initial_state)) =
   error (fst (handleGenerateNewsletter (sample_env (Inl (Error ''503'')) (Inr None)) initial_state))"
  using empty_array_reported_as_fetch_failure by (simp only:)

section \<open>Refinement\<close>

text \<open>
  Claim C8: when \<open>handleRefineNewsletter\<close> passes its entry test and ends with an error,
  whatever the failing step, the document is unchanged: \<open>newsletterHtml\<close> and
  \<open>headerImageUrl\<close> keep their values. The state differs from the one before only in the
  error message, the cleared refinement input and the loading fields, which are back at
  their idle values; started from an idle state, only the error message and the
  refinement input differ.
\<close>

theorem refine_error_keeps_document:
  assumes doc: "newsletterHtml s = Some html" "html \<noteq> []"
      and directive: "trim (refinementPrompt s) \<noteq> []"
      and run: "handleRefineNewsletter env s = (s', log)"
      and failed: "error s' \<noteq> None"
  shows "newsletterHtml s' = newsletterHtml s \<and> headerImageUrl s' = headerImageUrl s \<and>
         (\<exists>msg. s' = s\<lparr>error := Some msg, refinementPrompt := [],
                        loadingAction := None, loadingMessage := []\<rparr> \<and>
                (loadingAction s = None \<and> loadingMessage s = [] \<longrightarrow>
                   s' = s\<lparr>error := Some msg, refinementPrompt := []\<rparr>))"
proof -
  let ?s0 = "s\<lparr>loadingAction := Some Refine, error := None\<rparr>"
  obtain r s1 l where t: "refine_try env ?s0 html = (r, s1, l)"
    by (metis prod_cases3)
  show ?thesis
  proof (cases r)
    case None
    with t have "error s1 = None"
      by (auto dest: refine_try_ok_error)
    with None t run doc directive have "error s' = None"
      by (auto simp: handleRefineNewsletter_def)
    with failed show ?thesis by simp
  next
    case (Some e)
    with t have s1: "s1 = ?s0\<lparr>loadingMessage := loadingMessage s1\<rparr>"
      by (auto dest: refine_try_error)
    from Some t run doc directive
    have "s' = s1\<lparr>error := Some (message_of e), loadingAction := None,
                   loadingMessage := [], refinementPrompt := []\<rparr>"
      by (auto simp: handleRefineNewsletter_def)
    then have s': "s' = s\<lparr>error := Some (message_of e), refinementPrompt := [],
                        loadingAction := None, loadingMessage := []\<rparr>"
      by (subst (asm) s1) simp
    have idle: "loadingAction s = None \<and> loadingMessage s = [] \<longrightarrow>
        s' = s\<lparr>error := Some (message_of e), refinementPrompt := []\<rparr>"
    proof
      assume "loadingAction s = None \<and> loadingMessage s = []"
      then have "s\<lparr>error := Some (message_of e), refinementPrompt := [],
                   loadingAction := None, loadingMessage := []\<rparr> =
                 s\<lparr>error := Some (message_of e), refinementPrompt := []\<rparr>"
        by (intro idle_fields) (erule conjunct1, erule conjunct2)
      with s' show "s' = s\<lparr>error := Some (message_of e), refinementPrompt := []\<rparr>"
        by (rule trans)
    qed
    show ?thesis
    proof (intro conjI exI [of _ "message_of e"])
      show "newsletterHtml s' = newsletterHtml s"
        unfolding s' by simp
      show "headerImageUrl s' = headerImageUrl s"
        unfolding s' by simp
      show "s' = s\<lparr>error := Some (message_of e), refinementPrompt := [],
                        loadingAction := None, loadingMessage := []\<rparr>"
        by (rule s')
      show "loadingAction s = None \<and> loadingMessage s = [] \<longrightarrow>
        s' = s\<lparr>error := Some (message_of e), refinementPrompt := []\<rparr>"
        by (rule idle)
    qed
  qed
qed

theorem refine_error_keeps_document_witness:
  "handleRefineNewsletter (sample_env (Inl (Error ''503'')) (Inr None)) document_state =
     (document_state\<lparr>error := Some ''Failed to refine the newsletter from the AI. Please try again.'',
        refinementPrompt := []\<rparr>,
      snd (handleRefineNewsletter (sample_env (Inl (Error ''503'')) (Inr None)) document_state)) \<and>
   newsletterHtml (fst (handleRefineNewsletter (sample_env (Inl (Error ''503'')) (Inr None)) document_state))
     = Some ''<h1>News</h1>'' \<and>
   headerImageUrl (fst (handleRefineNewsletter (sample_env (Inl (Error ''503'')) (Inr None)) document_state))
     = Some ''data:image/png;base64,AAAA''"
proof -
  let ?env = "sample_env (Inl (Error ''503'')) (Inr None)"
  let ?r = "handleRefineNewsletter ?env document_state"
  let ?m = "''Failed to refine the newsletter from the AI. Please try again.''"
  have doc: "newsletterHtml document_state = Some ''<h1>News</h1>''"
    by code_simp
  have img: "headerImageUrl document_state = Some ''data:image/png;base64,AAAA''"
    by code_simp
  have ne: "''<h1>News</h1>'' \<noteq> []"
    by simp
  have dir: "trim (refinementPrompt document_state) \<noteq> []"
    by code_simp
  have idle: "loadingAction document_state = None \<and> loadingMessage document_state = []"
    by code_simp
  have err: "error (fst ?r) = Some ?m"
    by code_simp
  then have failed: "error (fst ?r) \<noteq> None"
    by (simp only: option.distinct not_False_eq_True)
  have run: "?r = (fst ?r, snd ?r)"
    by (rule prod.collapse [symmetric])
  from refine_error_keeps_document [OF doc ne dir run failed] idle
  obtain msg where keep: "newsletterHtml (fst ?r) = newsletterHtml document_state"
      "headerImageUrl (fst ?r) = headerImageUrl document_state"
    and final: "fst ?r = document_state\<lparr>error := Some msg, refinementPrompt := []\<rparr>"
    by blast
  from final have "error (fst ?r) = Some msg"
    by simp
  with err have "msg = ?m"
    by simp
  with final have "fst ?r = document_state\<lparr>error := Some ?m, refinementPrompt := []\<rparr>"
    by (simp only:)
  then have "?r = (document_state\<lparr>error := Some ?m, refinementPrompt := []\<rparr>, snd ?r)"
    by (metis prod.collapse)
  with keep doc img show ?thesis
    by (simp only: simp_thms)
qed

text \<open>
  Claim C6: a refinement that succeeds changes one field of the document. When the result
  is the image directive (an object whose \<open>requestType\<close> is \<open>image\<close> and whose
  \<open>newImagePrompt\<close> is truthy) and the image is generated, only \<open>headerImageUrl\<close> is
  replaced and \<open>newsletterHtml\<close> is the same string as before. When the result is not
  object-shaped, \<open>newsletterHtml\<close> becomes exactly the result and \<open>headerImageUrl\<close> is
  untouched.
\<close>

theorem refine_frames:
  assumes doc: "newsletterHtml s = Some html" "html \<noteq> []"
      and directive: "trim (refinementPrompt s) \<noteq> []"
      and reply: "fst (refineNewsletter env html (articles s) (refinementPrompt s)) = Inr result"
  shows "(startsWith (trim result) ''{'' \<and> endsWith (trim result) ''}'' \<and>
          JSON_parse env result = Inr (JObj kvs) \<and>
          map_of kvs ''requestType'' = Some (JStr ''image'') \<and>
          map_of kvs ''newImagePrompt'' = Some p \<and> truthy p \<and>
          fst (generateHeaderImage env p) = Inr imageBase64 \<longrightarrow>
            fst (handleRefineNewsletter env s) =
              s\<lparr>headerImageUrl := Some (data_uri imageBase64), error := None,
                 refinementPrompt := [], loadingAction := None, loadingMessage := []\<rparr>) \<and>
         (\<not> (startsWith (trim result) ''{'' \<and> endsWith (trim result) ''}'') \<longrightarrow>
            fst (handleRefineNewsletter env s) =
              s\<lparr>newsletterHtml := Some result, error := None,
                 refinementPrompt := [], loadingAction := None, loadingMessage := []\<rparr>)"
proof -
  let ?s0 = "s\<lparr>loadingAction := Some Refine, error := None\<rparr>"
  obtain l1 where r: "refineNewsletter env html (articles s) (refinementPrompt s) = (Inr result, l1)"
    using reply by (cases "refineNewsletter env html (articles s) (refinementPrompt s)") simp
  have h: "handleRefineNewsletter env s =
             (case catch_finally (refine_try env ?s0 html) of
                (s', log) \<Rightarrow> (s'\<lparr>refinementPrompt := []\<rparr>, log))"
    using doc directive by (simp add: handleRefineNewsletter_def)
  have image: "fst (handleRefineNewsletter env s) =
              s\<lparr>headerImageUrl := Some (data_uri imageBase64), error := None,
                 refinementPrompt := [], loadingAction := None, loadingMessage := []\<rparr>"
    if shape: "startsWith (trim result) ''{''" "endsWith (trim result) ''}''"
      and parsed: "JSON_parse env result = Inr (JObj kvs)"
      and fields: "map_of kvs ''requestType'' = Some (JStr ''image'')"
        "map_of kvs ''newImagePrompt'' = Some p" "truthy p"
      and img: "fst (generateHeaderImage env p) = Inr imageBase64"
  proof -
    obtain l2 where i: "generateHeaderImage env p = (Inr imageBase64, l2)"
      using img by (cases "generateHeaderImage env p") simp
    have "refine_json_try env (?s0\<lparr>loadingMessage := ''Refining your newsletter...''\<rparr>) result =
            (None, ?s0\<lparr>loadingMessage := ''Generating new header image...'',
                        headerImageUrl := Some (data_uri imageBase64)\<rparr>, l2)"
      using parsed fields i by (simp add: refine_json_try_def)
    then have "refine_try env ?s0 html =
            (None, ?s0\<lparr>loadingMessage := ''Generating new header image...'',
                        headerImageUrl := Some (data_uri imageBase64)\<rparr>, l1 @ l2)"
      using r shape by (simp add: refine_try_def)
    then show ?thesis
      by (simp add: h)
  qed
  have body: "fst (handleRefineNewsletter env s) =
              s\<lparr>newsletterHtml := Some result, error := None,
                 refinementPrompt := [], loadingAction := None, loadingMessage := []\<rparr>"
    if "\<not> (startsWith (trim result) ''{'' \<and> endsWith (trim result) ''}'')"
  proof -
    have "refine_try env ?s0 html =
            (None, ?s0\<lparr>loadingMessage := ''Refining your newsletter...'',
                        newsletterHtml := Some result\<rparr>, l1)"
      using r that by (auto simp: refine_try_def)
    then show ?thesis
      by (simp add: h)
  qed
  from image body show ?thesis
    by blast
qed

theorem refine_frames_witness:
  \<open>fst (handleRefineNewsletter
      (sample_env (Inr ''{"requestType":"image","newImagePrompt":"mountains at dawn"}'')
         (Inr (Some [''QUJD''])))
      document_state) =
     document_state\<lparr>headerImageUrl := Some ''data:image/png;base64,QUJD'', refinementPrompt := []\<rparr> \<and>
   fst (handleRefineNewsletter (sample_env (Inr ''<p>Short</p>'') (Inr None)) document_state) =
     document_state\<lparr>newsletterHtml := Some ''<p>Short</p>'', refinementPrompt := []\<rparr>\<close>
proof -
  let ?d = \<open>''{"requestType":"image","newImagePrompt":"mountains at dawn"}''\<close>
  let ?env1 = "sample_env (Inr ?d) (Inr (Some [''QUJD'']))"
  let ?env2 = "sample_env (Inr ''<p>Short</p>'') (Inr None)"
  have doc: "newsletterHtml document_state = Some ''<h1>News</h1>''"
    by code_simp
  have ne: "''<h1>News</h1>'' \<noteq> []"
    by simp
  have dir: "trim (refinementPrompt document_state) \<noteq> []"
    by code_simp
  have reply1: "fst (refineNewsletter ?env1 ''<h1>News</h1>'' (articles document_state)
      (refinementPrompt document_state)) = Inr ?d"
    by code_simp
  have pre1: "startsWith (trim ?d) ''{'' \<and> endsWith (trim ?d) ''}'' \<and>
      JSON_parse ?env1 ?d = Inr (JObj [(''requestType'', JStr ''image''),
                      (''newImagePrompt'', JStr ''mountains at dawn'')]) \<and>
      map_of [(''requestType'', JStr ''image''),
              (''newImagePrompt'', JStr ''mountains at dawn'')] ''requestType'' = Some (JStr ''image'') \<and>
      map_of [(''requestType'', JStr ''image''),
              (''newImagePrompt'', JStr ''mountains at dawn'')] ''newImagePrompt'' =
        Some (JStr ''mountains at dawn'') \<and>
      truthy (JStr ''mountains at dawn'') \<and>
      fst (generateHeaderImage ?env1 (JStr ''mountains at dawn'')) = Inr ''QUJD''"
    by code_simp
  from refine_frames [OF doc ne dir reply1] pre1
  have "fst (handleRefineNewsletter ?env1 document_state) =
      document_state\<lparr>headerImageUrl := Some (data_uri ''QUJD''), error := None,
        refinementPrompt := [], loadingAction := None, loadingMessage := []\<rparr>"
    by blast
  moreover have "document_state\<lparr>headerImageUrl := Some (data_uri ''QUJD''), error := None,
        refinementPrompt := [], loadingAction := None, loadingMessage := []\<rparr> =
      document_state\<lparr>headerImageUrl := Some ''data:image/png;base64,QUJD'', refinementPrompt := []\<rparr>"
    by code_simp
  ultimately have one: "fst (handleRefineNewsletter ?env1 document_state) =
      document_state\<lparr>headerImageUrl := Some ''data:image/png;base64,QUJD'', refinementPrompt := []\<rparr>"
    by (rule trans)
  have reply2: "fst (refineNewsletter ?env2 ''<h1>News</h1>'' (articles document_state)
      (refinementPrompt document_state)) = Inr ''<p>Short</p>''"
    by code_simp
  have pre2: "\<not> (startsWith (trim ''<p>Short</p>'') ''{'' \<and> endsWith (trim ''<p>Short</p>'') ''}'')"
    by code_simp
  from refine_frames [OF doc ne dir reply2] pre2
  have "fst (handleRefineNewsletter ?env2 document_state) =
      document_state\<lparr>newsletterHtml := Some ''<p>Short</p>'', error := None,
        refinementPrompt := [], loadingAction := None, loadingMessage := []\<rparr>"
    by blast
  moreover have "document_state\<lparr>newsletterHtml := Some ''<p>Short</p>'', error := None,
        refinementPrompt := [], loadingAction := None, loadingMessage := []\<rparr> =
      document_state\<lparr>newsletterHtml := Some ''<p>Short</p>'', refinementPrompt := []\<rparr>"
    by code_simp
  ultimately have two: "fst (handleRefineNewsletter ?env2 document_state) =
      document_state\<lparr>newsletterHtml := Some ''<p>Short</p>'', refinementPrompt := []\<rparr>"
    by (rule trans)
  from one two show ?thesis
    by (rule conjI)
qed

section \<open>Generation\<close>

text \<open>
  Claim C9: when \<open>handleGenerateNewsletter\<close> passes the topic test and ends with an
  error, the header image is \<open>null\<close>, and the document and the article list hold nothing
  of the state before: if the news step failed there are no articles and no document; if
  the draft step failed the articles are the new ones and there is no document; otherwise
  the image step failed, and the new draft and the new articles are stored.
\<close>

theorem failed_generation_loses_document:
  assumes valid: "topics s \<noteq> []"
      and run: "handleGenerateNewsletter env s = (s', log)"
      and failed: "error s' \<noteq> None"
  shows "headerImageUrl s' = None \<and>
         (case fst (fetchTrendingNews env (topics s) (minArticles s)) of
            Inl e \<Rightarrow> newsletterHtml s' = None \<and> articles s' = JArr []
          | Inr a \<Rightarrow>
              articles s' = a \<and>
              (case fst (generateNewsletter env a (newsletterOptions s)) of
                 Inl e \<Rightarrow> newsletterHtml s' = None
               | Inr h \<Rightarrow>
                   newsletterHtml s' = Some h \<and> shouldGenerateImage s \<and>
                   (\<exists>e. fst (generateHeaderImage env (JStr (image_prompt s))) = Inl e)))"
proof -
  let ?s0 = "s\<lparr>loadingAction := Some Generate, error := None, newsletterHtml := None,
                 headerImageUrl := None, articles := JArr []\<rparr>"
  have h: "(s', log) = catch_finally (generate_try env ?s0)"
    using valid run by (simp add: handleGenerateNewsletter_def)
  obtain r1 l1 where f: "fetchTrendingNews env (topics s) (minArticles s) = (r1, l1)"
    by fastforce
  show ?thesis
  proof (cases r1)
    case (Inl e)
    with f h show ?thesis
      by (simp add: generate_try_def)
  next
    case a: (Inr a)
    with f have z: "length_is_zero a = Inr False"
      by (auto dest: fetchTrendingNews_ok)
    obtain r2 l2 where g: "generateNewsletter env a (newsletterOptions s) = (r2, l2)"
      by fastforce
    show ?thesis
    proof (cases r2)
      case (Inl e)
      with a f z g h show ?thesis
        by (simp add: generate_try_def)
    next
      case html: (Inr html)
      show ?thesis
      proof (cases "shouldGenerateImage s")
        case False
        with html a f z g h have "error s' = None"
          by (simp add: generate_try_def)
        with failed show ?thesis by simp
      next
        case True
        obtain r3 l3 where i: "generateHeaderImage env (JStr (image_prompt s)) = (r3, l3)"
          by fastforce
        show ?thesis
        proof (cases r3)
          case (Inl e)
          with True html a f z g h i show ?thesis
            by (simp add: generate_try_def)
        next
          case (Inr b)
          with True html a f z g h i have "error s' = None"
            by (simp add: generate_try_def)
          with failed show ?thesis by simp
        qed
      qed
    qed
  qed
qed

theorem failed_generation_loses_document_witness:
  "error (fst (handleGenerateNewsletter
      (sample_env2 (Inr ''[{}]'') (Inr ''<h1>New</h1>'') (Inr None)) document_state)) =
     Some ''Failed to generate the header image from the AI. Please try again.'' \<and>
   headerImageUrl (fst (handleGenerateNewsletter
      (sample_env2 (Inr ''[{}]'') (Inr ''<h1>New</h1>'') (Inr None)) document_state)) = None \<and>
   newsletterHtml (fst (handleGenerateNewsletter
      (sample_env2 (Inr ''[{}]'') (Inr ''<h1>New</h1>'') (Inr None)) document_state)) =
     Some ''<h1>New</h1>'' \<and>
   articles (fst (handleGenerateNewsletter
      (sample_env2 (Inr ''[{}]'') (Inr ''<h1>New</h1>'') (Inr None)) document_state)) =
     JArr [JObj []]"
proof -
  let ?env = "sample_env2 (Inr ''[{}]'') (Inr ''<h1>New</h1>'') (Inr None)"
  let ?r = "handleGenerateNewsletter ?env document_state"
  have valid: "topics document_state \<noteq> []"
    by code_simp
  have run: "?r = (fst ?r, snd ?r)"
    by (rule prod.collapse [symmetric])
  have err: "error (fst ?r) =
      Some ''Failed to generate the header image from the AI. Please try again.''"
    by code_simp
  then have failed: "error (fst ?r) \<noteq> None"
    by (simp only: option.distinct not_False_eq_True)
  have f: "fst (fetchTrendingNews ?env (topics document_state) (minArticles document_state)) =
      Inr (JArr [JObj []])"
    by code_simp
  have g: "fst (generateNewsletter ?env (JArr [JObj []]) (newsletterOptions document_state)) =
      Inr ''<h1>New</h1>''"
    by code_simp
  from failed_generation_loses_document [OF valid run failed]
  have "headerImageUrl (fst ?r) = None \<and> articles (fst ?r) = JArr [JObj []] \<and>
        newsletterHtml (fst ?r) = Some ''<h1>New</h1>''"
    unfolding f by (simp add: g)
  with err show ?thesis
    by (simp only: simp_thms)
qed

text \<open>
  Claim C10: \<open>fetchTrendingNews\<close> checks nothing about the elements of the parsed array.
  Whatever non-empty array \<open>JSON.parse\<close> returns is the result; it is stored in
  \<open>articles\<close> and its \<open>JSON.stringify\<close> text is part of the draft request that follows
  the news request.
\<close>

theorem fetchTrendingNews_no_schema_check:
  assumes valid: "topics s \<noteq> []"
      and reply: "ai_generateContent env ''gemini-2.5-flash''
                    (news_prompt (topics s) (minArticles s)) True = Inr text"
      and extracted: "newsJsonText text = Inr jsonText"
      and parsed: "JSON_parse env jsonText = Inr (JArr xs)"
      and nonempty: "xs \<noteq> []"
  shows "fst (fetchTrendingNews env (topics s) (minArticles s)) = Inr (JArr xs) \<and>
         articles (fst (handleGenerateNewsletter env s)) = JArr xs \<and>
         (\<exists>rest. snd (handleGenerateNewsletter env s) =
            GenerateContent ''gemini-2.5-flash'' (news_prompt (topics s) (minArticles s)) True #
            GenerateContent ''gemini-2.5-flash''
              (newsletter_prompt (JSON_stringify env (JArr xs)) (newsletterOptions s)) False # rest)"
proof -
  let ?s0 = "s\<lparr>loadingAction := Some Generate, error := None, newsletterHtml := None,
                 headerImageUrl := None, articles := JArr []\<rparr>"
  let ?call = "GenerateContent ''gemini-2.5-flash'' (news_prompt (topics s) (minArticles s)) True"
  have f: "fetchTrendingNews env (topics s) (minArticles s) = (Inr (JArr xs), [?call])"
    using reply extracted parsed nonempty
    by (simp add: fetchTrendingNews_def parseArticles_def length_is_zero_def try_catch_def)
  then have "fetchTrendingNews env (topics ?s0) (minArticles ?s0) = (Inr (JArr xs), [?call])"
    by simp
  from generate_try_after_fetch [OF this]
  obtain r s' rest where t: "generate_try env ?s0 =
      (r, s', [?call] @ snd (generateNewsletter env (JArr xs) (newsletterOptions s)) @ rest)"
    and a: "articles s' = JArr xs"
    by auto
  have h: "handleGenerateNewsletter env s = catch_finally (generate_try env ?s0)"
    using valid by (simp add: handleGenerateNewsletter_def)
  from a have "articles (fst (handleGenerateNewsletter env s)) = JArr xs"
    unfolding h t by (cases r) simp_all
  moreover have "snd (handleGenerateNewsletter env s) =
     [?call] @ snd (generateNewsletter env (JArr xs) (newsletterOptions s)) @ rest"
    unfolding h t by (cases r) simp_all
  ultimately show ?thesis
    using f by (simp add: snd_generateNewsletter)
qed

theorem fetchTrendingNews_no_schema_check_witness:
  "fst (fetchTrendingNews (sample_env2 (Inr ''[{}]'') (Inr ''<h1>New</h1>'') (Inr None))
          (topics initial_state) (minArticles initial_state)) = Inr (JArr [JObj []]) \<and>
   articles (fst (handleGenerateNewsletter
      (sample_env2 (Inr ''[{}]'') (Inr ''<h1>New</h1>'') (Inr None)) initial_state)) = JArr [JObj []] \<and>
   length (snd (handleGenerateNewsletter
      (sample_env2 (Inr ''[{}]'') (Inr ''<h1>New</h1>'') (Inr None)) initial_state)) \<ge> 2"
proof -
  let ?env = "sample_env2 (Inr ''[{}]'') (Inr ''<h1>New</h1>'') (Inr None)"
  have valid: "topics initial_state \<noteq> []"
    by code_simp
  have reply: "ai_generateContent ?env ''gemini-2.5-flash''
      (news_prompt (topics initial_state) (minArticles initial_state)) True = Inr ''[{}]''"
    by (simp add: sample_env2_def)
  have extracted: "newsJsonText ''[{}]'' = Inr ''[{}]''"
    by code_simp
  have parsed: "JSON_parse ?env ''[{}]'' = Inr (JArr [JObj []])"
    by code_simp
  have nonempty: "[JObj []] \<noteq> []"
    by simp
  from fetchTrendingNews_no_schema_check [OF valid reply extracted parsed nonempty]
  show ?thesis
    by auto
qed

end
